theory Spec2Isabelle
  imports Complex_Main "HOL-Library.Multiset" "HOL-Library.Log_Nat"
begin

section \<open>JavaScript numbers\<close>

text \<open>
  A JavaScript number is an IEEE 754 double: a binary floating-point number with a
  significand of 53 bits, whose smallest positive value is 2 to the power -1074.  The
  doubles are modelled as the reals they denote, and an arithmetic operation as the exact
  operation followed by rounding to the nearest double, ties to the even significand.

  \<open>round_binary p E x\<close> rounds \<open>x\<close> in the format with \<open>p\<close> bits of significand and unit
  \<open>2 ^ - E\<close> of the subnormal numbers: \<open>s\<close> is \<open>x\<close> in that unit, \<open>k\<close> is the number of
  low bits that do not fit into the significand, and the significand is rounded to an
  integer.  Overflow to infinity is left out; no number below is larger than 60000.
\<close>

definition round_half_even :: "real \<Rightarrow> int" where
  "round_half_even q =
     (let f = \<lfloor>q\<rfloor>; d = q - of_int f
      in if d < 1 / 2 then f else if 1 / 2 < d then f + 1 else if even f then f else f + 1)"

definition round_binary :: "nat \<Rightarrow> nat \<Rightarrow> real \<Rightarrow> real" where
  "round_binary p E x =
     (let s = x * 2 ^ E; k = nat (bitlen \<lfloor>\<bar>s\<bar>\<rfloor> - int p)
      in of_int (round_half_even (s / 2 ^ k)) * 2 ^ k / 2 ^ E)"

definition round_double :: "real \<Rightarrow> real" where
  "round_double x = round_binary 53 1074 x"

text \<open>
  The product \<open>x * y\<close> of two doubles.  A decimal literal of the source, such as
  \<open>0.1\<close>, denotes \<open>round_double 0.1\<close>.  Sums and differences of integers below
  \<open>2 ^ 53\<close> are exact, and so is \<open>Math.floor\<close>.
\<close>

definition double_times :: "real \<Rightarrow> real \<Rightarrow> real" where
  "double_times x y = round_double (x * y)"

section \<open>The environment: \<open>Math.random()\<close> and \<open>new Date()\<close>\<close>

text \<open>
  Both components of the dashboard draw all of their data from \<open>Math.random()\<close>.
  ECMAScript guarantees that a draw is a number \<open>r\<close> with \<open>0 \<le> r < 1\<close>; the type
  \<open>random_number\<close> holds exactly the doubles in that range: the numbers \<open>m / 2 ^ k\<close>
  below 1 with \<open>m < 2 ^ 53\<close> and \<open>k \<le> 1074\<close>.  The sequence of numbers that the
  successive calls return, and the sequence of instants that the successive
  \<open>new Date()\<close> expressions read, are the state of the world that every generator
  takes and returns.

  An index \<open>Math.floor(Math.random() * n)\<close> into an array literal of length \<open>n\<close>
  is always in range (lemma \<open>floor_draw\<close> below), and the model reads the array with
  \<open>!\<close>.
\<close>

typedef random_number =
  "{x::real. \<exists>m k. x = real m / 2 ^ k \<and> m < 2 ^ 53 \<and> k \<le> 1074 \<and> x < 1}"
  morphisms number_of Random
  by (rule exI [of _ 0], rule CollectI, rule exI [of _ 0], rule exI [of _ 0]) simp

setup_lifting type_definition_random_number

lift_definition draw_zero :: random_number is 0
  by (rule exI [of _ 0], rule exI [of _ 0]) simp

lift_definition draw_half :: random_number is "1 / 2"
  by (rule exI [of _ 1], rule exI [of _ 1]) simp

lift_definition draw_high :: random_number is "3 / 4"
  by (rule exI [of _ 3], rule exI [of _ 2]) simp

record world =
  rands :: "nat \<Rightarrow> random_number"
  dates :: "nat \<Rightarrow> int"

definition Math_random :: "world \<Rightarrow> real \<times> world" where
  "Math_random w = (number_of (rands w 0), w\<lparr>rands := (\<lambda>n. rands w (Suc n))\<rparr>)"

definition new_Date :: "world \<Rightarrow> int \<times> world" where
  "new_Date w = (dates w 0, w\<lparr>dates := (\<lambda>n. dates w (Suc n))\<rparr>)"

text \<open>The world after \<open>k\<close> further draws and \<open>j\<close> further clock readings.\<close>

definition skip :: "nat \<Rightarrow> nat \<Rightarrow> world \<Rightarrow> world" where
  "skip k j w = w\<lparr>rands := (\<lambda>n. rands w (n + k)), dates := (\<lambda>n. dates w (n + j))\<rparr>"

text \<open>Worlds in which every draw is the same number, for concrete runs.\<close>

definition constant_world :: "random_number \<Rightarrow> world" where
  "constant_world r = \<lparr>rands = (\<lambda>n. r), dates = (\<lambda>n. 0)\<rparr>"

section \<open>JavaScript library functions\<close>

text \<open>\<open>String(n)\<close> of an integral number: its decimal digits.\<close>

fun digits :: "nat \<Rightarrow> string" where
  "digits n =
     (if n < 10 then [''0123456789'' ! n]
      else digits (n div 10) @ [''0123456789'' ! (n mod 10)])"

declare digits.simps [simp del]

definition toString :: "int \<Rightarrow> string" where
  "toString k = (if k < 0 then CHR ''-'' # digits (nat (- k)) else digits (nat k))"

text \<open>\<open>s.padStart(n, c)\<close> for a one-character pad string.\<close>

definition padStart :: "nat \<Rightarrow> char \<Rightarrow> string \<Rightarrow> string" where
  "padStart n c s = replicate (n - length s) c @ s"

text \<open>
  The number of the trainset at index \<open>i\<close>: the template literal
  \<open>KMRL-${String(i + 1).padStart(3, '0')}\<close>, which both components evaluate.
\<close>

definition train_number :: "nat \<Rightarrow> string" where
  "train_number i = ''KMRL-'' @ padStart 3 CHR ''0'' (toString (int i + 1))"

text \<open>\<open>xs.slice(0, e)\<close>: a negative end counts from the end of the array.\<close>

definition slice0 :: "'a list \<Rightarrow> int \<Rightarrow> 'a list" where
  "slice0 xs e = (if e < 0 then take (nat (int (length xs) + e)) xs else take (nat e) xs)"

text \<open>
  \<open>Array.from({ length: n }, (_, i) => f(i))\<close>: the callback runs for
  \<open>i = 0, \<dots>, n - 1\<close> in this order, each call continuing in the world the
  previous one left.
\<close>

primrec Array_from :: "nat \<Rightarrow> (nat \<Rightarrow> world \<Rightarrow> 'a \<times> world) \<Rightarrow> world \<Rightarrow> 'a list \<times> world" where
  "Array_from 0 f w = ([], w)"
| "Array_from (Suc n) f w =
     (let (xs, w') = Array_from n f w;
          (x, w'') = f n w'
      in (xs @ [x], w''))"

text \<open>
  \<open>xs.sort(cmp)\<close>: a stable sort by the comparator; \<open>x\<close> stays before \<open>y\<close>
  unless \<open>cmp x y > 0\<close>.  The engine's algorithm is its own choice; for a comparator
  that orders by a key, as the one used below does, every stable sort returns the same
  list, and insertion is the simplest of them.  JavaScript sorts the array in place and
  returns it, so the array held in the component's state takes the same order.
\<close>

fun insert_cmp :: "('a \<Rightarrow> 'a \<Rightarrow> int) \<Rightarrow> 'a \<Rightarrow> 'a list \<Rightarrow> 'a list" where
  "insert_cmp cmp x [] = [x]"
| "insert_cmp cmp x (y # ys) =
     (if cmp x y \<le> 0 then x # y # ys else y # insert_cmp cmp x ys)"

definition Array_sort :: "('a \<Rightarrow> 'a \<Rightarrow> int) \<Rightarrow> 'a list \<Rightarrow> 'a list" where
  "Array_sort cmp xs = foldr (insert_cmp cmp) xs []"

section \<open>MetroDashboard: the fleet snapshot\<close>

datatype Status = Operational | Status_Standby | Status_Maintenance | Critical

datatype Action = Induct | Standby | Maintenance

datatype Priority = High | Medium | Low

record fitness =
  rollingStock :: bool
  signalling :: bool
  telecom :: bool

record jobCards =
  open_cards :: int
  total_cards :: int

record branding =
  priority :: Priority
  exposure :: int
  target :: int

record mileage =
  current :: int
  target :: int
  variance :: int

record cleaning =
  scheduled :: bool
  priority :: int

record stablingBay =
  current :: string
  optimal :: string
  shuntingTime :: int

record TrainsetStatus =
  trainset_id :: string
  number :: string
  status :: Status
  fitness :: fitness
  jobCards :: jobCards
  branding :: branding
  mileage :: mileage
  cleaning :: cleaning
  stablingBay :: stablingBay
  lastUpdated :: int
  recommendedAction :: Action
  confidenceScore :: int

text \<open>
  The callback of \<open>generateTrainsetData\<close> for index \<open>i\<close>.  The object literal is
  evaluated in source order, so the draws are taken in the order of the fields:
  status, the three certificates, the two job-card counts, branding priority and
  exposure, mileage current and variance, cleaning scheduled and priority, the two
  bays and the shunting time, then the clock, then the recommended action and the
  confidence score: seventeen draws and one clock reading for each trainset.
\<close>

definition trainset_at :: "nat \<Rightarrow> world \<Rightarrow> TrainsetStatus \<times> world" where
  "trainset_at i w0 =
    (let trainNumber = ''KMRL-'' @ padStart 3 CHR ''0'' (toString (int i + 1));
         statuses = [Operational, Status_Standby, Status_Maintenance, Critical];
         (r_status, w1) = Math_random w0;
         (r_rolling, w2) = Math_random w1;
         (r_signal, w3) = Math_random w2;
         (r_telecom, w4) = Math_random w3;
         (r_open, w5) = Math_random w4;
         (r_total, w6) = Math_random w5;
         (r_priority, w7) = Math_random w6;
         (r_exposure, w8) = Math_random w7;
         (r_current, w9) = Math_random w8;
         (r_variance, w10) = Math_random w9;
         (r_scheduled, w11) = Math_random w10;
         (r_cleaning, w12) = Math_random w11;
         (r_bay, w13) = Math_random w12;
         (r_optimal, w14) = Math_random w13;
         (r_shunting, w15) = Math_random w14;
         (now, w16) = new_Date w15;
         (r_action, w17) = Math_random w16;
         (r_confidence, w18) = Math_random w17
     in (\<lparr>trainset_id = ''train-'' @ toString (int i + 1),
          number = trainNumber,
          status = statuses ! nat \<lfloor>double_times r_status (real (length statuses))\<rfloor>,
          fitness = \<lparr>rollingStock = (r_rolling > round_double 0.1),
                      signalling = (r_signal > round_double 0.05),
                      telecom = (r_telecom > round_double 0.08)\<rparr>,
          jobCards = \<lparr>open_cards = \<lfloor>double_times r_open 5\<rfloor>,
                       total_cards = \<lfloor>double_times r_total 10\<rfloor> + 5\<rparr>,
          branding = \<lparr>branding.priority = [High, Medium, Low] ! nat \<lfloor>double_times r_priority 3\<rfloor>,
                       exposure = \<lfloor>double_times r_exposure 100\<rfloor>,
                       branding.target = 85\<rparr>,
          mileage = \<lparr>mileage.current = \<lfloor>double_times r_current 50000\<rfloor> + 10000,
                      mileage.target = 45000,
                      variance = \<lfloor>double_times r_variance 10000\<rfloor> - 5000\<rparr>,
          cleaning = \<lparr>scheduled = (r_scheduled > round_double 0.3),
                       cleaning.priority = \<lfloor>double_times r_cleaning 5\<rfloor> + 1\<rparr>,
          stablingBay = \<lparr>stablingBay.current = ''Bay-'' @ toString (\<lfloor>double_times r_bay 8\<rfloor> + 1),
                          optimal = ''Bay-'' @ toString (\<lfloor>double_times r_optimal 8\<rfloor> + 1),
                          shuntingTime = \<lfloor>double_times r_shunting 30\<rfloor> + 5\<rparr>,
          lastUpdated = now,
          recommendedAction = [Induct, Standby, Maintenance] ! nat \<lfloor>double_times r_action 3\<rfloor>,
          confidenceScore = \<lfloor>double_times r_confidence 30\<rfloor> + 70\<rparr>,
         w18))"

definition generateTrainsetData :: "world \<Rightarrow> TrainsetStatus list \<times> world" where
  "generateTrainsetData w = Array_from 25 trainset_at w"

section \<open>OptimizationPanel: one optimization run\<close>

record OptimizationResult =
  trainsetId :: string
  action :: Action
  score :: int
  reasoning :: "string list"
  constraints :: "string list"
  timestamp :: int

record OptimizationMetrics =
  serviceReadiness :: int
  costEfficiency :: int
  brandingCompliance :: int
  maintenanceOptimization :: int
  stablingEfficiency :: int
  overallScore :: int

text \<open>The component's state: the five \<open>useState\<close> cells.\<close>

record panel =
  isOptimizing :: bool
  progress :: real
  results :: "OptimizationResult list"
  metrics :: "OptimizationMetrics option"
  optimizationLogs :: "string list"

definition initial_panel :: panel where
  "initial_panel =
     \<lparr>isOptimizing = False, progress = 0, results = [], metrics = None,
      optimizationLogs = []\<rparr>"

definition logs :: "string list" where
  "logs =
     [''Initializing multi-objective optimization engine...'',
      ''Loading trainset fitness certificates...'',
      ''Parsing Maximo job card exports...'',
      ''Calculating branding exposure requirements...'',
      ''Analyzing mileage balancing constraints...'',
      ''Evaluating cleaning schedule availability...'',
      ''Optimizing stabling bay geometry...'',
      ''Running constraint satisfaction algorithms...'',
      ''Applying machine learning predictive models...'',
      ''Generating ranked induction recommendations...'',
      ''Validation complete - Solution ready'']"

text \<open>
  The simulation loop \<open>for (let i = 0; i < logs.length; i++)\<close>.  Each round waits
  (the delay is not modelled), appends \<open>logs[i]\<close> and sets the progress to
  \<open>((i + 1) / logs.length) * 100\<close>.  The function returns the state after each round,
  in order.  The progress is kept as the exact quotient: what is proved of it below is
  its order and its end points, which the rounding of the division and of the product
  preserves.
\<close>

function log_loop :: "string list \<Rightarrow> nat \<Rightarrow> panel \<Rightarrow> panel list" where
  "log_loop ls i p =
     (if i < length ls then
        (let p' = p\<lparr>optimizationLogs := optimizationLogs p @ [ls ! i],
                    progress := ((real i + 1) / real (length ls)) * 100\<rparr>
         in p' # log_loop ls (Suc i) p')
      else [])"
  by pat_completeness auto
termination
  by (relation "measure (\<lambda>(ls, i, p). length ls - i)") auto

declare log_loop.simps [simp del]

text \<open>
  The callback of \<open>mockResults\<close> for index \<open>i\<close>: four draws (action, score, length
  of the reasoning, length of the constraints) and one clock reading.
\<close>

definition result_at :: "nat \<Rightarrow> world \<Rightarrow> OptimizationResult \<times> world" where
  "result_at i w0 =
    (let (r_action, w1) = Math_random w0;
         (r_score, w2) = Math_random w1;
         (r_reasoning, w3) = Math_random w2;
         (r_constraints, w4) = Math_random w3;
         (now, w5) = new_Date w4
     in (\<lparr>trainsetId = ''KMRL-'' @ padStart 3 CHR ''0'' (toString (int i + 1)),
          action = [Induct, Standby, Maintenance] ! nat \<lfloor>double_times r_action 3\<rfloor>,
          score = \<lfloor>double_times r_score 30\<rfloor> + 70,
          reasoning =
            slice0 [''All fitness certificates valid'',
                    ''Zero open job cards'',
                    ''High branding priority met'',
                    ''Optimal mileage balance''] (\<lfloor>double_times r_reasoning 4\<rfloor> + 1),
          constraints =
            slice0 [''Telecom clearance expires in 6 hours'',
                    ''Scheduled cleaning required'',
                    ''Bay repositioning needed''] \<lfloor>double_times r_constraints 3\<rfloor>,
          timestamp = now\<rparr>,
         w5))"

definition mockMetrics :: "world \<Rightarrow> OptimizationMetrics \<times> world" where
  "mockMetrics w0 =
    (let (r_service, w1) = Math_random w0;
         (r_cost, w2) = Math_random w1;
         (r_branding, w3) = Math_random w2;
         (r_maintenance, w4) = Math_random w3;
         (r_stabling, w5) = Math_random w4;
         (r_overall, w6) = Math_random w5
     in (\<lparr>serviceReadiness = \<lfloor>double_times r_service 20\<rfloor> + 80,
          costEfficiency = \<lfloor>double_times r_cost 15\<rfloor> + 85,
          brandingCompliance = \<lfloor>double_times r_branding 10\<rfloor> + 90,
          maintenanceOptimization = \<lfloor>double_times r_maintenance 25\<rfloor> + 75,
          stablingEfficiency = \<lfloor>double_times r_stabling 20\<rfloor> + 80,
          overallScore = \<lfloor>double_times r_overall 15\<rfloor> + 85\<rparr>,
         w6))"

text \<open>
  \<open>runOptimization\<close>, started in state \<open>p\<close>.  It returns the successive states of
  the component (after the three initial setters, after each round of the loop, and
  after the final setters) and the world it leaves.  The run takes no argument: neither
  a fleet snapshot nor a configuration reaches it.
\<close>

definition runOptimization :: "panel \<Rightarrow> world \<Rightarrow> panel list \<times> world" where
  "runOptimization p w0 =
    (let p0 = p\<lparr>isOptimizing := True, progress := 0, optimizationLogs := []\<rparr>;
         rounds = log_loop logs 0 p0;
         p1 = last (p0 # rounds);
         (mockResults, w1) = Array_from 25 result_at w0;
         (mockMetrics, w2) = mockMetrics w1;
         p2 = p1\<lparr>results := mockResults, metrics := Some mockMetrics,
                  isOptimizing := False\<rparr>
     in (p0 # rounds @ [p2], w2))"

text \<open>The state a run ends in, and the progress values it passes through.\<close>

definition completed :: "panel \<Rightarrow> world \<Rightarrow> panel" where
  "completed p w = last (fst (runOptimization p w))"

definition progress_signal :: "panel \<Rightarrow> world \<Rightarrow> real list" where
  "progress_signal p w = map progress (fst (runOptimization p w))"

text \<open>
  The "All Trainsets" tab renders \<open>results.sort((a, b) => b.score - a.score)\<close>, the
  three other tabs the same sort of \<open>results.filter(r => r.action === a)\<close>.
\<close>

definition all_trainsets :: "OptimizationResult list \<Rightarrow> OptimizationResult list" where
  "all_trainsets rs = Array_sort (\<lambda>a b. score b - score a) rs"

definition action_tab :: "Action \<Rightarrow> OptimizationResult list \<Rightarrow> OptimizationResult list" where
  "action_tab act rs =
     Array_sort (\<lambda>a b. score b - score a) (filter (\<lambda>r. action r = act) rs)"

section \<open>The feasibility rule of the specification\<close>

text \<open>
  The source has no feasibility filter.  The following definition is not a translation
  of code: it writes down the rule of the specification (section 4.1, with the default
  blocking threshold of zero open job cards), to compare the actions the code assigns
  with it.  A trainset with an expired certificate is feasible for Maintenance only; one
  with open job cards is feasible for Standby and Maintenance; otherwise every action is
  feasible.
\<close>

definition spec_feasible_actions :: "TrainsetStatus \<Rightarrow> Action set" where
  "spec_feasible_actions t =
     (if \<not> (rollingStock (fitness t) \<and> signalling (fitness t) \<and> telecom (fitness t))
      then {Maintenance}
      else if 0 < open_cards (jobCards t) then {Standby, Maintenance}
      else {Induct, Standby, Maintenance})"

section \<open>Concrete sessions\<close>

text \<open>
  A world for two consecutive runs: a run takes 106 draws, so here the first run draws
  0 throughout and the second draws 1/2 throughout.
\<close>

definition two_runs_world :: world where
  "two_runs_world =
     \<lparr>rands = (\<lambda>n. if n < 106 then draw_zero else draw_half), dates = (\<lambda>n. int n)\<rparr>"

definition first_run :: panel where
  "first_run = completed initial_panel two_runs_world"

definition second_run :: panel where
  "second_run = completed first_run (snd (runOptimization initial_panel two_runs_world))"

text \<open>
  A world for one session of the dashboard: the fleet is generated on mount (25 times
  17 draws, here all 1/2), and a run that follows takes its draws from the rest (here
  all 0).
\<close>

definition session_world :: world where
  "session_world =
     \<lparr>rands = (\<lambda>n. if n < 425 then draw_half else draw_zero), dates = (\<lambda>n. int n)\<rparr>"

definition session_fleet :: "TrainsetStatus list" where
  "session_fleet = fst (generateTrainsetData session_world)"

definition session_run :: panel where
  "session_run = completed initial_panel (snd (generateTrainsetData session_world))"

section \<open>Rounding\<close>

lemma round_half_even_bounds: "\<lfloor>q\<rfloor> \<le> round_half_even q \<and> round_half_even q \<le> \<lfloor>q\<rfloor> + 1"
  by (simp add: round_half_even_def Let_def)

lemma round_half_even_of_int: "round_half_even (of_int m) = m"
  by (simp add: round_half_even_def)

lemma round_half_even_ge:
  assumes "of_int m \<le> q"
  shows "m \<le> round_half_even q"
proof -
  have "m \<le> \<lfloor>q\<rfloor>"
    using assms by (simp add: le_floor_iff)
  then show ?thesis
    using round_half_even_bounds [of q] by linarith
qed

lemma two_power_le_real: "(2::int) ^ N \<le> a \<Longrightarrow> (2::real) ^ N \<le> of_int a"
  by simp

lemma less_two_power_real: "a < (2::int) ^ N \<Longrightarrow> real_of_int a + 1 \<le> 2 ^ N"
proof -
  assume "a < 2 ^ N"
  then have "a + 1 \<le> 2 ^ N" by simp
  then have "real_of_int (a + 1) \<le> 2 ^ N"
    by (simp only: of_int_le_numeral_power_cancel_iff)
  then show ?thesis by simp
qed

lemma round_half_even_le:
  assumes "q \<le> of_int m"
  shows "round_half_even q \<le> m"
proof (cases "q = of_int m")
  case True
  then show ?thesis by (simp add: round_half_even_of_int)
next
  case False
  with assms have "q < of_int m" by simp
  then have "\<lfloor>q\<rfloor> < m" by (simp add: floor_less_iff)
  then show ?thesis
    using round_half_even_bounds [of q] by simp
qed

lemma round_half_even_less:
  assumes "q < of_int m - 1 / 2"
  shows "round_half_even q < m"
proof -
  have "q < of_int m" using assms by simp
  then have f: "\<lfloor>q\<rfloor> < m" by (simp add: floor_less_iff)
  show ?thesis
  proof (cases "\<lfloor>q\<rfloor> = m - 1")
    case True
    then have "q - of_int \<lfloor>q\<rfloor> < 1 / 2"
      using assms by simp
    then show ?thesis
      using True by (simp add: round_half_even_def Let_def)
  next
    case False
    with f have "\<lfloor>q\<rfloor> + 1 < m" by simp
    then show ?thesis
      using round_half_even_bounds [of q] by simp
  qed
qed

lemma round_half_even_mono:
  assumes "q \<le> q'"
  shows "round_half_even q \<le> round_half_even q'"
proof (cases "\<lfloor>q\<rfloor> = \<lfloor>q'\<rfloor>")
  case True
  then have "q - of_int \<lfloor>q\<rfloor> \<le> q' - of_int \<lfloor>q'\<rfloor>"
    using assms by simp
  then show ?thesis
    using True by (auto simp: round_half_even_def Let_def)
next
  case False
  moreover have "\<lfloor>q\<rfloor> \<le> \<lfloor>q'\<rfloor>"
    using assms by (rule floor_mono)
  ultimately have "\<lfloor>q\<rfloor> + 1 \<le> \<lfloor>q'\<rfloor>" by simp
  then show ?thesis
    using round_half_even_bounds [of q] round_half_even_bounds [of q'] by linarith
qed

lemma round_binary_nonneg:
  assumes "0 \<le> x"
  shows "0 \<le> round_binary p E x"
proof -
  have "0 \<le> x * 2 ^ E / 2 ^ k" for k :: nat
    using assms by simp
  then have "0 \<le> round_half_even (x * 2 ^ E / 2 ^ k)" for k :: nat
    using round_half_even_ge [of 0 "x * 2 ^ E / 2 ^ k"] by simp
  then show ?thesis
    by (simp add: round_binary_def Let_def)
qed

lemma round_binary_less:
  fixes n :: int
  assumes p: "0 < p" "p \<le> E" and n: "0 < n" "n \<le> 2 ^ p"
    and x: "0 \<le> x" "x \<le> of_int n * (1 - 1 / 2 ^ p)"
  shows "round_binary p E x < of_int n"
proof -
  define s where "s = x * 2 ^ E"
  define a where "a = \<lfloor>\<bar>s\<bar>\<rfloor>"
  define k where "k = nat (bitlen a - int p)"
  define q where "q = s / 2 ^ k"
  have s0: "0 \<le> s"
    using x by (simp add: s_def)
  then have a_le: "of_int a \<le> s"
    by (simp add: a_def)
  have pow: "(2::real) ^ E = 2 ^ (E - p) * 2 ^ p"
    using p by (simp flip: power_add)
  have "s \<le> of_int n * (1 - 1 / 2 ^ p) * 2 ^ E"
    unfolding s_def using x by (intro mult_right_mono) simp_all
  also have "\<dots> = of_int n * 2 ^ E - of_int n * 2 ^ (E - p)"
    by (simp add: pow field_simps)
  finally have s_up: "s \<le> of_int n * 2 ^ E - of_int n * 2 ^ (E - p)" .
  have npos: "0 < real_of_int n"
    using n by simp
  then have s_lt: "s < of_int n * 2 ^ E"
    using s_up by (smt (verit) mult_pos_pos zero_less_power)
  have A: "(2::real) ^ k * 2 ^ p < of_int n * 2 ^ E * 2"
  proof (cases "k = 0")
    case True
    have "(2::real) ^ p \<le> 2 ^ E"
      using p by (intro power_increasing) simp_all
    also have "\<dots> \<le> of_int n * 2 ^ E"
      using n by simp
    also have "\<dots> < of_int n * 2 ^ E * 2"
      using npos by simp
    finally show ?thesis
      using True by simp
  next
    case False
    then have bl: "bitlen a = int k + int p"
      by (simp add: k_def)
    then have "0 < bitlen a"
      using p by simp
    then have apos: "0 < a"
      using bitlen_eq_zero_iff [of a] by (cases "0 < a") simp_all
    have "nat (bitlen a - 1) = k + p - 1"
      using bl p by simp
    then have "(2::int) ^ (k + p - 1) \<le> a"
      using bitlen_bounds [OF apos] by simp
    then have "(2::real) ^ (k + p - 1) \<le> of_int a"
      by (rule two_power_le_real)
    then have "(2::real) ^ (k + p - 1) < of_int n * 2 ^ E"
      using a_le s_lt by linarith
    moreover have "(2::real) ^ (k + p) = 2 ^ (k + p - 1) * 2"
      using p by (cases "k + p") simp_all
    ultimately show ?thesis
      by (simp add: power_add)
  qed
  have "(2::real) ^ k * 2 ^ p < 2 ^ p * 2 ^ E * 2"
  proof -
    have "real_of_int n \<le> 2 ^ p"
      using n by simp
    then have "real_of_int n * 2 ^ E * 2 \<le> 2 ^ p * 2 ^ E * 2"
      by (intro mult_right_mono) simp_all
    with A show ?thesis
      by (rule less_le_trans)
  qed
  then have lt: "(2::real) ^ k < 2 ^ (Suc E)"
    by simp
  have "k < Suc E"
    by (rule power_less_imp_less_exp [OF _ lt]) simp
  then have kE: "k \<le> E"
    by simp
  define M where "M = n * 2 ^ (E - k)"
  have powk: "(2::real) ^ E = 2 ^ (E - k) * 2 ^ k"
    using kE by (simp flip: power_add)
  have M: "real_of_int M = of_int n * 2 ^ E / 2 ^ k"
    by (simp add: M_def powk)
  have "q \<le> (of_int n * 2 ^ E - of_int n * 2 ^ (E - p)) / 2 ^ k"
    unfolding q_def using s_up by (intro divide_right_mono) simp_all
  also have "\<dots> = of_int M - of_int n * 2 ^ (E - p) / 2 ^ k"
    by (simp add: M diff_divide_distrib)
  also have "\<dots> < of_int M - 1 / 2"
  proof -
    have "(2::real) ^ k * 2 ^ p < of_int n * 2 ^ (E - p) * 2 * 2 ^ p"
      using A by (simp add: pow)
    then have "(2::real) ^ k < of_int n * 2 ^ (E - p) * 2"
      by simp
    then have "1 / 2 < real_of_int n * 2 ^ (E - p) / 2 ^ k"
      by (simp add: field_simps)
    then show ?thesis by simp
  qed
  finally have "round_half_even q < M"
    by (rule round_half_even_less)
  then have "real_of_int (round_half_even q) < of_int M"
    by simp
  then have "of_int (round_half_even q) * 2 ^ k / 2 ^ E < of_int M * 2 ^ k / (2::real) ^ E"
    by (simp add: divide_strict_right_mono)
  also have "\<dots> = of_int n"
    by (simp add: M)
  finally show ?thesis
    using s0 by (simp add: round_binary_def Let_def s_def a_def k_def q_def)
qed

lemma round_binary_dyadic:
  fixes m :: int
  assumes "0 \<le> m" "m < 2 ^ p" "j \<le> E"
  shows "round_binary p E (of_int m / 2 ^ j) = of_int m / 2 ^ j"
proof -
  define a where "a = m * 2 ^ (E - j)"
  define k where "k = nat (bitlen a - int p)"
  have powj: "(2::real) ^ E = 2 ^ (E - j) * 2 ^ j"
    using assms by (simp flip: power_add)
  have s: "real_of_int m / 2 ^ j * 2 ^ E = of_int a"
    by (simp add: a_def powj)
  have a0: "0 \<le> a"
    using assms by (simp add: a_def)
  have "a < 2 ^ p * 2 ^ (E - j)"
    unfolding a_def using assms by (intro mult_strict_right_mono) simp_all
  then have "a < 2 ^ nat (int p + int (E - j))"
    by (simp add: nat_add_distrib power_add)
  then have "bitlen a \<le> int p + int (E - j)"
    by (simp add: bitlen_le_iff_power)
  then have k: "k \<le> E - j"
    by (simp add: k_def)
  then have powk: "(2::real) ^ (E - j) = 2 ^ (E - j - k) * 2 ^ k"
    by (simp flip: power_add)
  have "real_of_int a / 2 ^ k = of_int (m * 2 ^ (E - j - k))"
    by (simp add: a_def powk)
  then have "round_half_even (of_int a / 2 ^ k) = m * 2 ^ (E - j - k)"
    by (simp only: round_half_even_of_int)
  then have "real_of_int (round_half_even (of_int a / 2 ^ k)) * 2 ^ k / 2 ^ E = of_int m / 2 ^ j"
    by (simp add: powj powk)
  moreover have "round_binary p E (of_int m / 2 ^ j) =
      of_int (round_half_even (of_int a / 2 ^ k)) * 2 ^ k / 2 ^ E"
    unfolding round_binary_def Let_def s k_def using a0 by simp
  ultimately show ?thesis
    by simp
qed

lemma bitlen_mono: "a \<le> b \<Longrightarrow> bitlen a \<le> bitlen b"
  by (simp add: bitlen_def floorlog_mono)

lemma round_binary_mono:
  assumes p: "0 < p" and xy: "0 \<le> x" "x \<le> y"
  shows "round_binary p E x \<le> round_binary p E y"
proof -
  define s where "s = x * 2 ^ E"
  define t where "t = y * 2 ^ E"
  define a where "a = \<lfloor>\<bar>s\<bar>\<rfloor>"
  define b where "b = \<lfloor>\<bar>t\<bar>\<rfloor>"
  define k where "k = nat (bitlen a - int p)"
  define l where "l = nat (bitlen b - int p)"
  have st: "0 \<le> s" "s \<le> t"
    using xy by (simp_all add: s_def t_def)
  then have ab: "a \<le> b"
    by (simp add: a_def b_def floor_mono)
  then have kl: "k \<le> l"
    using bitlen_mono [OF ab] by (simp add: k_def l_def)
  have "real_of_int (round_half_even (s / 2 ^ k)) * 2 ^ k
      \<le> of_int (round_half_even (t / 2 ^ l)) * 2 ^ l"
  proof (cases "k = l")
    case True
    have "s / 2 ^ l \<le> t / 2 ^ l"
      using st by (simp add: divide_right_mono)
    then have "round_half_even (s / 2 ^ l) \<le> round_half_even (t / 2 ^ l)"
      by (rule round_half_even_mono)
    then show ?thesis
      using True by simp
  next
    case False
    with kl have lt: "k < l" by simp
    then have bl: "bitlen b = int l + int p"
      by (simp add: l_def)
    then have "0 < bitlen b"
      using p by simp
    then have bpos: "0 < b"
      using bitlen_eq_zero_iff [of b] by (cases "0 < b") simp_all
    have "nat (bitlen b - 1) = l + p - 1"
      using bl p by simp
    then have "(2::int) ^ (l + p - 1) \<le> b"
      using bitlen_bounds [OF bpos] by simp
    then have "(2::real) ^ (l + p - 1) \<le> of_int b"
      by (rule two_power_le_real)
    moreover have "of_int b \<le> t"
      using st by (simp add: b_def)
    ultimately have "(2::real) ^ (l + p - 1) \<le> t"
      by linarith
    moreover have "(2::real) ^ (l + p - 1) = 2 ^ (p - 1) * 2 ^ l"
      using p by (simp flip: power_add)
    ultimately have "of_int (2 ^ (p - 1)) \<le> t / 2 ^ l"
      by (simp add: field_simps)
    then have "2 ^ (p - 1) \<le> round_half_even (t / 2 ^ l)"
      by (rule round_half_even_ge)
    then have "real_of_int (2 ^ (p - 1)) \<le> of_int (round_half_even (t / 2 ^ l))"
      by (simp only: of_int_le_iff)
    then have "real_of_int (2 ^ (p - 1)) * 2 ^ l \<le> of_int (round_half_even (t / 2 ^ l)) * 2 ^ l"
      by (intro mult_right_mono) simp_all
    then have upper: "(2::real) ^ (p - 1) * 2 ^ l \<le> of_int (round_half_even (t / 2 ^ l)) * 2 ^ l"
      by simp
    have "bitlen a \<le> int (k + p)"
      by (simp add: k_def)
    then have "a < 2 ^ (k + p)"
      by (simp add: bitlen_le_iff_power nat_add_distrib)
    then have "real_of_int a + 1 \<le> 2 ^ (k + p)"
      by (rule less_two_power_real)
    moreover have "s < of_int a + 1"
      using st by (simp add: a_def)
    ultimately have "s \<le> 2 ^ (k + p)"
      by linarith
    then have "s / 2 ^ k \<le> of_int (2 ^ p)"
      by (simp add: field_simps power_add)
    then have "round_half_even (s / 2 ^ k) \<le> 2 ^ p"
      by (rule round_half_even_le)
    then have "real_of_int (round_half_even (s / 2 ^ k)) \<le> of_int (2 ^ p)"
      by (simp only: of_int_le_iff)
    then have "real_of_int (round_half_even (s / 2 ^ k)) * 2 ^ k \<le> of_int (2 ^ p) * 2 ^ k"
      by (intro mult_right_mono) simp_all
    then have lower: "real_of_int (round_half_even (s / 2 ^ k)) * 2 ^ k \<le> 2 ^ (p + k)"
      by (simp add: power_add)
    have "p + k \<le> p - 1 + l"
      using lt p by simp
    then have "(2::real) ^ (p + k) \<le> 2 ^ (p - 1 + l)"
      by (intro power_increasing) simp_all
    then have "(2::real) ^ (p + k) \<le> 2 ^ (p - 1) * 2 ^ l"
      by (simp only: power_add)
    with lower upper show ?thesis
      by linarith
  qed
  then have "real_of_int (round_half_even (s / 2 ^ k)) * 2 ^ k / 2 ^ E
      \<le> of_int (round_half_even (t / 2 ^ l)) * 2 ^ l / 2 ^ E"
    by (simp add: divide_right_mono)
  then show ?thesis
    by (simp add: round_binary_def Let_def s_def t_def a_def b_def k_def l_def)
qed

lemma round_double_nonneg: "0 \<le> x \<Longrightarrow> 0 \<le> round_double x"
  by (simp add: round_double_def round_binary_nonneg)

lemma round_double_mono: "0 \<le> x \<Longrightarrow> x \<le> y \<Longrightarrow> round_double x \<le> round_double y"
  by (simp add: round_double_def round_binary_mono)

text \<open>A number with an integral numerator below \<open>2 ^ 53\<close> over a power of two is a double.\<close>

lemma round_double_dyadic:
  fixes m :: int
  assumes "0 \<le> m" "m < 2 ^ 53" "j \<le> 1074"
  shows "round_double (of_int m / 2 ^ j) = of_int m / 2 ^ j"
  unfolding round_double_def using assms by (rule round_binary_dyadic)

lemma round_double_zero: "round_double 0 = 0"
  using round_double_dyadic [of 0 0] by simp

lemma round_double_one: "round_double 1 = 1"
  using round_double_dyadic [of 1 0] by simp

lemma round_double_numeral:
  "(numeral w :: int) < 2 ^ 53 \<Longrightarrow> round_double (numeral w) = numeral w"
  using round_double_dyadic [of "numeral w" 0] by simp

lemma round_double_half:
  "(numeral w :: int) < 2 ^ 53 \<Longrightarrow> round_double (numeral w / 2) = numeral w / 2"
  using round_double_dyadic [of "numeral w" 1] by simp

lemma round_double_quarter:
  "(numeral w :: int) < 2 ^ 53 \<Longrightarrow> round_double (numeral w / 4) = numeral w / 4"
  using round_double_dyadic [of "numeral w" 2] by simp

lemmas double_values =
  double_times_def round_double_zero round_double_one round_double_numeral
  round_double_half round_double_quarter

text \<open>
  Rounding decides some floors.  The draw \<open>6004799503160661 / 2 ^ 53\<close> is below 2/3, and
  its product with 3 rounds to 2; the product of \<open>2552039788843281 / 2 ^ 52\<close> with 30 is
  below 17 and rounds to 17.
\<close>

lemma round_binary_at:
  fixes a :: int
  assumes "0 < p" and x: "x * 2 ^ E = of_int a" and a: "2 ^ (k + p - 1) \<le> a" "a < 2 ^ (k + p)"
  shows "round_binary p E x = of_int (round_half_even (of_int a / 2 ^ k)) * 2 ^ k / 2 ^ E"
proof -
  have "0 < a"
    using a(1) by (smt (verit) zero_less_power)
  have "bitlen a \<le> int (k + p)"
    using a(2) by (simp add: bitlen_le_iff_power nat_add_distrib)
  moreover have "int (k + p) \<le> bitlen a"
    using a(1) assms(1) by (simp add: bitlen_ge_iff_power nat_add_distrib nat_diff_distrib)
  ultimately have "nat (bitlen a - int p) = k"
    by simp
  then show ?thesis
    using \<open>0 < a\<close> by (simp add: round_binary_def Let_def x)
qed

lemma rounding_up_to_two:
  "\<lfloor>double_times (6004799503160661 / 2 ^ 53) 3\<rfloor> = 2 \<and>
   \<lfloor>6004799503160661 / 2 ^ 53 * (3::real)\<rfloor> = 1"
proof -
  have "round_binary 53 1074 (6004799503160661 / 2 ^ 53 * 3) =
      of_int (round_half_even (of_int (18014398509481983 * 2 ^ 1021) / 2 ^ 1022)) *
        2 ^ 1022 / 2 ^ 1074"
    by (rule round_binary_at [where k = 1022]) simp_all
  moreover have "round_half_even (of_int (18014398509481983 * 2 ^ 1021) / 2 ^ 1022) = 2 ^ 53"
    by (simp add: round_half_even_def Let_def)
  ultimately show ?thesis
    by (simp add: double_times_def round_double_def)
qed

lemma rounding_up_to_seventeen:
  "\<lfloor>double_times (2552039788843281 / 2 ^ 52) 30\<rfloor> = 17 \<and>
   \<lfloor>2552039788843281 / 2 ^ 52 * (30::real)\<rfloor> = 16"
proof -
  have "round_binary 53 1074 (2552039788843281 / 2 ^ 52 * 30) =
      of_int (round_half_even (of_int (76561193665298430 * 2 ^ 1022) / 2 ^ 1026)) *
        2 ^ 1026 / 2 ^ 1074"
    by (rule round_binary_at [where k = 1026]) simp_all
  moreover have
    "round_half_even (of_int (76561193665298430 * 2 ^ 1022) / 2 ^ 1026) = 4785074604081152"
    by (simp add: round_half_even_def Let_def)
  ultimately show ?thesis
    by (simp add: double_times_def round_double_def)
qed

text \<open>The decimal literals of the source denote doubles between 0 and 3/8.\<close>

lemma literal_bounds:
  assumes "0 \<le> x" "x \<le> 3 / 8"
  shows "\<not> round_double x < 0 \<and> round_double x < 1 / 2"
proof -
  have "round_double x \<le> round_double (3 / 8)"
    using assms by (rule round_double_mono)
  also have "round_double (3 / 8) = 3 / 8"
    using round_double_dyadic [of 3 3] by simp
  finally show ?thesis
    using round_double_nonneg [OF assms(1)] by simp
qed

lemma literals:
  "\<not> round_double (1 / 10) < 0" "round_double (1 / 10) * 2 < 1"
  "\<not> round_double (1 / 20) < 0" "round_double (1 / 20) * 2 < 1"
  "\<not> round_double (2 / 25) < 0" "round_double (2 / 25) * 2 < 1"
  using literal_bounds [of "1 / 10"] literal_bounds [of "1 / 20"] literal_bounds [of "2 / 25"]
  by simp_all

section \<open>Draws and arrays\<close>

text \<open>The largest double below 1 is \<open>1 - 1 / 2 ^ 53\<close>.\<close>

lemma draw_bounds: "0 \<le> number_of r \<and> number_of r \<le> 1 - 1 / 2 ^ 53"
proof -
  obtain m k where r: "number_of r = real m / 2 ^ k" "m < 2 ^ 53" "k \<le> 1074" "number_of r < 1"
    using number_of [of r] by auto
  have "real m / 2 ^ k \<le> 1 - 1 / 2 ^ 53"
  proof (cases "k \<le> 53")
    case True
    have "real m / 2 ^ k < 1"
      using r by simp
    then have "m < 2 ^ k"
      by (simp add: divide_less_eq)
    then have "m + 1 \<le> 2 ^ k"
      by simp
    then have "real (m + 1) \<le> 2 ^ k"
      by (simp only: of_nat_le_numeral_power_cancel_iff)
    then have "real m / 2 ^ k \<le> 1 - 1 / 2 ^ k"
      by (simp add: field_simps)
    moreover have "(2::real) ^ k \<le> 2 ^ 53"
      using True by (intro power_increasing) simp_all
    then have "1 / (2::real) ^ 53 \<le> 1 / 2 ^ k"
      by (simp add: field_simps)
    ultimately show ?thesis
      by linarith
  next
    case False
    then have "(2::real) ^ 54 \<le> 2 ^ k"
      by (intro power_increasing) simp_all
    moreover have "real m < 2 ^ 53"
      using r by simp
    ultimately have "real m * 2 \<le> 2 ^ k"
      by simp
    then have "real m / 2 ^ k \<le> 1 / 2"
      by (simp add: field_simps)
    moreover have "(1::real) / 2 \<le> 1 - 1 / 2 ^ 53"
      by simp
    ultimately show ?thesis
      by linarith
  qed
  then show ?thesis
    using r by simp
qed

text \<open>\<open>Math.floor(Math.random() * k)\<close> is one of \<open>0, \<dots>, k - 1\<close>.\<close>

lemma floor_draw:
  assumes "0 < k" "k \<le> 2 ^ 53"
  shows "0 \<le> \<lfloor>double_times (number_of r) (of_int k)\<rfloor> \<and>
         \<lfloor>double_times (number_of r) (of_int k)\<rfloor> < k"
proof -
  have r: "0 \<le> number_of r" "number_of r \<le> 1 - 1 / 2 ^ 53"
    using draw_bounds [of r] by simp_all
  have x: "0 \<le> number_of r * of_int k"
    using r assms by simp
  have "number_of r * of_int k \<le> (1 - 1 / 2 ^ 53) * of_int k"
    using r assms by (intro mult_right_mono) simp_all
  then have "number_of r * of_int k \<le> of_int k * (1 - 1 / 2 ^ 53)"
    by (simp add: mult.commute)
  then have "round_binary 53 1074 (number_of r * of_int k) < of_int k"
    using assms x by (intro round_binary_less) simp_all
  then have "\<lfloor>double_times (number_of r) (of_int k)\<rfloor> < k"
    by (simp add: double_times_def round_double_def floor_less_iff)
  moreover have "0 \<le> double_times (number_of r) (of_int k)"
    using x by (simp add: double_times_def round_double_nonneg)
  ultimately show ?thesis
    by simp
qed

lemma skip_skip: "skip k j (skip k' j' w) = skip (k' + k) (j' + j) w"
  by (simp add: skip_def ac_simps)

lemma skip_zero: "skip 0 0 w = w"
  by (simp add: skip_def)

lemma rands_skip: "rands (skip k j w) n = rands w (n + k)"
  by (simp add: skip_def)

lemma Array_from_length: "length (fst (Array_from n f w)) = n"
  by (induction n) (simp_all add: split_def Let_def)

lemma Array_from_world:
  assumes "\<And>i v. snd (f i v) = skip k j v"
  shows "snd (Array_from n f w) = skip (n * k) (n * j) w"
proof (induction n)
  case 0
  show ?case by (simp add: skip_zero)
next
  case (Suc n)
  then show ?case
    by (simp add: split_def Let_def assms skip_skip add.commute)
qed

lemma Array_from_nth:
  assumes "\<And>i v. snd (f i v) = skip k j v" and "i < n"
  shows "fst (Array_from n f w) ! i = fst (f i (skip (i * k) (i * j) w))"
  using assms(2)
proof (induction n)
  case 0
  then show ?case by simp
next
  case (Suc n)
  show ?case
  proof (cases "i < n")
    case True
    with Suc.IH show ?thesis
      by (simp add: split_def Let_def nth_append Array_from_length)
  next
    case False
    with Suc.prems have "i = n" by simp
    then show ?thesis
      by (simp add: split_def Let_def nth_append Array_from_length
          Array_from_world [OF assms(1)])
  qed
qed

section \<open>The generated fleet\<close>

lemma trainset_at_world: "snd (trainset_at i w) = skip 17 1 w"
  by (simp add: trainset_at_def Math_random_def new_Date_def skip_def split_def Let_def
      eval_nat_numeral)

lemma generateTrainsetData_length: "length (fst (generateTrainsetData w)) = 25"
  by (simp add: generateTrainsetData_def Array_from_length)

lemma generateTrainsetData_nth:
  "i < 25 \<Longrightarrow>
     fst (generateTrainsetData w) ! i = fst (trainset_at i (skip (i * 17) i w))"
  using Array_from_nth [of trainset_at 17 1 i 25 w]
  by (simp add: generateTrainsetData_def trainset_at_world)

lemma trainset_at_value:
  "fst (trainset_at i w) =
     \<lparr>trainset_id = ''train-'' @ toString (int i + 1),
      number = ''KMRL-'' @ padStart 3 CHR ''0'' (toString (int i + 1)),
      status = [Operational, Status_Standby, Status_Maintenance, Critical]
                 ! nat \<lfloor>double_times (number_of (rands w 0)) 4\<rfloor>,
      fitness = \<lparr>rollingStock = (number_of (rands w 1) > round_double 0.1),
                  signalling = (number_of (rands w 2) > round_double 0.05),
                  telecom = (number_of (rands w 3) > round_double 0.08)\<rparr>,
      jobCards = \<lparr>open_cards = \<lfloor>double_times (number_of (rands w 4)) 5\<rfloor>,
                   total_cards = \<lfloor>double_times (number_of (rands w 5)) 10\<rfloor> + 5\<rparr>,
      branding = \<lparr>branding.priority = [High, Medium, Low] ! nat \<lfloor>double_times (number_of (rands w 6)) 3\<rfloor>,
                   exposure = \<lfloor>double_times (number_of (rands w 7)) 100\<rfloor>,
                   branding.target = 85\<rparr>,
      mileage = \<lparr>mileage.current = \<lfloor>double_times (number_of (rands w 8)) 50000\<rfloor> + 10000,
                  mileage.target = 45000,
                  variance = \<lfloor>double_times (number_of (rands w 9)) 10000\<rfloor> - 5000\<rparr>,
      cleaning = \<lparr>scheduled = (number_of (rands w 10) > round_double 0.3),
                   cleaning.priority = \<lfloor>double_times (number_of (rands w 11)) 5\<rfloor> + 1\<rparr>,
      stablingBay = \<lparr>stablingBay.current = ''Bay-'' @ toString (\<lfloor>double_times (number_of (rands w 12)) 8\<rfloor> + 1),
                      optimal = ''Bay-'' @ toString (\<lfloor>double_times (number_of (rands w 13)) 8\<rfloor> + 1),
                      shuntingTime = \<lfloor>double_times (number_of (rands w 14)) 30\<rfloor> + 5\<rparr>,
      lastUpdated = dates w 0,
      recommendedAction = [Induct, Standby, Maintenance] ! nat \<lfloor>double_times (number_of (rands w 15)) 3\<rfloor>,
      confidenceScore = \<lfloor>double_times (number_of (rands w 16)) 30\<rfloor> + 70\<rparr>"
  by (simp add: trainset_at_def Math_random_def new_Date_def split_def Let_def
      eval_nat_numeral)

lemma fleet_member:
  assumes "t \<in> set (fst (generateTrainsetData w))"
  obtains i where "i < 25" and "t = fst (trainset_at i (skip (i * 17) i w))"
  using assms generateTrainsetData_nth [of _ w]
  by (auto simp: in_set_conv_nth generateTrainsetData_length)

section \<open>Job cards\<close>

text \<open>
  C9.  For every trainset snapshot of the generated fleet the job-card counts satisfy
  \<open>0 \<le> open \<le> total\<close>: the open count is one of \<open>0, \<dots>, 4\<close> and the total one of
  \<open>5, \<dots>, 14\<close>.
\<close>

theorem job_cards_open_le_total:
  "\<forall>t \<in> set (fst (generateTrainsetData w)).
     0 \<le> open_cards (jobCards t) \<and> open_cards (jobCards t) \<le> total_cards (jobCards t)"
proof
  fix t
  assume "t \<in> set (fst (generateTrainsetData w))"
  then obtain i where t: "t = fst (trainset_at i (skip (i * 17) i w))"
    by (rule fleet_member)
  define a where "a = \<lfloor>double_times (number_of (rands (skip (i * 17) i w) 4)) 5\<rfloor>"
  define b where "b = \<lfloor>double_times (number_of (rands (skip (i * 17) i w) 5)) 10\<rfloor>"
  have "0 \<le> a" "a < 5"
    using floor_draw [of 5 "rands (skip (i * 17) i w) 4"] by (simp_all add: a_def)
  moreover have "0 \<le> b"
    using floor_draw [of 10 "rands (skip (i * 17) i w) 5"] by (simp add: b_def)
  moreover have "jobCards t = \<lparr>open_cards = a, total_cards = b + 5\<rparr>"
    by (simp add: t trainset_at_value a_def b_def)
  ultimately show
    "0 \<le> open_cards (jobCards t) \<and> open_cards (jobCards t) \<le> total_cards (jobCards t)"
    by simp
qed

theorem job_cards_open_le_total_witness:
  "fst (generateTrainsetData (constant_world draw_half)) ! 0
     \<in> set (fst (generateTrainsetData (constant_world draw_half))) \<and>
   open_cards (jobCards (fst (generateTrainsetData (constant_world draw_half)) ! 0)) = 2 \<and>
   total_cards (jobCards (fst (generateTrainsetData (constant_world draw_half)) ! 0)) = 10 \<and>
   (0::int) \<le> 2 \<and> (2::int) \<le> 10"
proof -
  let ?fleet = "fst (generateTrainsetData (constant_world draw_half))"
  have m: "?fleet ! 0 \<in> set ?fleet"
    by (simp add: generateTrainsetData_length)
  have "0 \<le> open_cards (jobCards (?fleet ! 0)) \<and>
      open_cards (jobCards (?fleet ! 0)) \<le> total_cards (jobCards (?fleet ! 0))"
    using job_cards_open_le_total [of "constant_world draw_half"] m by blast
  moreover have "jobCards (?fleet ! 0) = \<lparr>open_cards = 2, total_cards = 10\<rparr>"
    by (simp add: generateTrainsetData_nth trainset_at_value skip_def constant_world_def
        draw_half.rep_eq
        double_values)
  ultimately show ?thesis
    using m by simp
qed

section \<open>The results and metrics of a run\<close>

lemma result_at_world: "snd (result_at i w) = skip 4 1 w"
  by (simp add: result_at_def Math_random_def new_Date_def skip_def split_def Let_def
      eval_nat_numeral)

lemma result_at_value:
  "fst (result_at i w) =
     \<lparr>trainsetId = ''KMRL-'' @ padStart 3 CHR ''0'' (toString (int i + 1)),
      action = [Induct, Standby, Maintenance] ! nat \<lfloor>double_times (number_of (rands w 0)) 3\<rfloor>,
      score = \<lfloor>double_times (number_of (rands w 1)) 30\<rfloor> + 70,
      reasoning =
        slice0 [''All fitness certificates valid'',
                ''Zero open job cards'',
                ''High branding priority met'',
                ''Optimal mileage balance''] (\<lfloor>double_times (number_of (rands w 2)) 4\<rfloor> + 1),
      constraints =
        slice0 [''Telecom clearance expires in 6 hours'',
                ''Scheduled cleaning required'',
                ''Bay repositioning needed''] \<lfloor>double_times (number_of (rands w 3)) 3\<rfloor>,
      timestamp = dates w 0\<rparr>"
  by (simp add: result_at_def Math_random_def new_Date_def split_def Let_def
      eval_nat_numeral)

lemma mockMetrics_value:
  "fst (mockMetrics w) =
     \<lparr>serviceReadiness = \<lfloor>double_times (number_of (rands w 0)) 20\<rfloor> + 80,
      costEfficiency = \<lfloor>double_times (number_of (rands w 1)) 15\<rfloor> + 85,
      brandingCompliance = \<lfloor>double_times (number_of (rands w 2)) 10\<rfloor> + 90,
      maintenanceOptimization = \<lfloor>double_times (number_of (rands w 3)) 25\<rfloor> + 75,
      stablingEfficiency = \<lfloor>double_times (number_of (rands w 4)) 20\<rfloor> + 80,
      overallScore = \<lfloor>double_times (number_of (rands w 5)) 15\<rfloor> + 85\<rparr>"
  by (simp add: mockMetrics_def Math_random_def split_def Let_def eval_nat_numeral)

lemma completed_results: "results (completed p w) = fst (Array_from 25 result_at w)"
  by (simp add: completed_def runOptimization_def split_def Let_def)

lemma completed_metrics:
  "metrics (completed p w) = Some (fst (mockMetrics (skip 100 25 w)))"
  using Array_from_world [of result_at 4 1 25 w]
  by (simp add: completed_def runOptimization_def split_def Let_def result_at_world)

lemma results_length: "length (results (completed p w)) = 25"
  by (simp add: completed_results Array_from_length)

lemma results_nth:
  "i < 25 \<Longrightarrow> results (completed p w) ! i = fst (result_at i (skip (i * 4) i w))"
  using Array_from_nth [of result_at 4 1 i 25 w]
  by (simp add: completed_results result_at_world)

lemma results_member:
  assumes "r \<in> set (results (completed p w))"
  obtains i where "i < 25" and "r = fst (result_at i (skip (i * 4) i w))"
  using assms results_nth [of _ p w]
  by (auto simp: in_set_conv_nth results_length)

section \<open>The range of the scores\<close>

text \<open>
  C10.  Every result of every run has a score between 70 and 99, whatever its action,
  and every trainset of the generated fleet has a confidence score between 70 and 99:
  both are \<open>Math.floor(Math.random() * 30) + 70\<close>.
\<close>

theorem scores_between_70_and_99:
  "(\<forall>r \<in> set (results (completed p w)). 70 \<le> score r \<and> score r \<le> 99) \<and>
   (\<forall>t \<in> set (fst (generateTrainsetData w')).
      70 \<le> confidenceScore t \<and> confidenceScore t \<le> 99)"
proof (intro conjI ballI)
  fix r
  assume "r \<in> set (results (completed p w))"
  then obtain i where r: "r = fst (result_at i (skip (i * 4) i w))"
    by (rule results_member)
  define a where "a = \<lfloor>double_times (number_of (rands (skip (i * 4) i w) 1)) 30\<rfloor>"
  have "0 \<le> a" "a < 30"
    using floor_draw [of 30 "rands (skip (i * 4) i w) 1"] by (simp_all add: a_def)
  moreover have "score r = a + 70"
    by (simp add: r result_at_value a_def)
  ultimately show "70 \<le> score r" "score r \<le> 99"
    by simp_all
next
  fix t
  assume "t \<in> set (fst (generateTrainsetData w'))"
  then obtain i where t: "t = fst (trainset_at i (skip (i * 17) i w'))"
    by (rule fleet_member)
  define a where "a = \<lfloor>double_times (number_of (rands (skip (i * 17) i w') 16)) 30\<rfloor>"
  have "0 \<le> a" "a < 30"
    using floor_draw [of 30 "rands (skip (i * 17) i w') 16"] by (simp_all add: a_def)
  moreover have "confidenceScore t = a + 70"
    by (simp add: t trainset_at_value a_def)
  ultimately show "70 \<le> confidenceScore t" "confidenceScore t \<le> 99"
    by simp_all
qed

theorem scores_between_70_and_99_witness:
  "results (completed initial_panel (constant_world draw_high)) ! 0
     \<in> set (results (completed initial_panel (constant_world draw_high))) \<and>
   fst (generateTrainsetData (constant_world draw_zero)) ! 24
     \<in> set (fst (generateTrainsetData (constant_world draw_zero))) \<and>
   action (results (completed initial_panel (constant_world draw_high)) ! 0) = Maintenance \<and>
   score (results (completed initial_panel (constant_world draw_high)) ! 0) = 92 \<and>
   confidenceScore (fst (generateTrainsetData (constant_world draw_zero)) ! 24) = 70 \<and>
   (70::int) \<le> 92 \<and> (92::int) \<le> 99 \<and> (70::int) \<le> 70 \<and> (70::int) \<le> 99"
proof -
  let ?rs = "results (completed initial_panel (constant_world draw_high))"
  let ?fleet = "fst (generateTrainsetData (constant_world draw_zero))"
  have m: "?rs ! 0 \<in> set ?rs" "?fleet ! 24 \<in> set ?fleet"
    by (simp_all add: results_length generateTrainsetData_length)
  have "70 \<le> score (?rs ! 0) \<and> score (?rs ! 0) \<le> 99"
    and "70 \<le> confidenceScore (?fleet ! 24) \<and> confidenceScore (?fleet ! 24) \<le> 99"
    using scores_between_70_and_99
      [of initial_panel "constant_world draw_high" "constant_world draw_zero"] m
    by blast+
  moreover have "score (?rs ! 0) = 92" "action (?rs ! 0) = Maintenance"
    by (simp_all add: results_nth result_at_value skip_def constant_world_def
        draw_high.rep_eq
        double_values)
  moreover have "confidenceScore (?fleet ! 24) = 70"
    by (simp add: generateTrainsetData_nth trainset_at_value skip_def constant_world_def
        draw_zero.rep_eq
        double_values)
  ultimately show ?thesis
    using m by simp
qed

section \<open>The fleet and the results, entry by entry\<close>

lemma fleet_closed_form:
  "fst (generateTrainsetData w) =
     map (\<lambda>i. fst (trainset_at i (skip (i * 17) i w))) [0..<25]"
  by (rule nth_equalityI) (simp_all add: generateTrainsetData_length generateTrainsetData_nth)

lemma results_closed_form:
  "results (completed p w) = map (\<lambda>i. fst (result_at i (skip (i * 4) i w))) [0..<25]"
  by (rule nth_equalityI) (simp_all add: results_length results_nth)

lemma runOptimization_world: "snd (runOptimization p w) = skip 106 25 w"
  using Array_from_world [of result_at 4 1 25 w]
  by (simp add: runOptimization_def mockMetrics_def Math_random_def split_def Let_def
      result_at_world skip_def eval_nat_numeral)

text \<open>The trainset numbers are pairwise different.\<close>

lemma numbers_distinct:
  "distinct (map (\<lambda>i. ''KMRL-'' @ padStart 3 CHR ''0'' (toString (int i + 1))) [0..<25])"
  by code_simp

lemma result_ids:
  "map trainsetId (results (completed p w)) =
     map (\<lambda>i. ''KMRL-'' @ padStart 3 CHR ''0'' (toString (int i + 1))) [0..<25]"
  by (simp add: results_closed_form result_at_value)

lemma fleet_numbers:
  "map number (fst (generateTrainsetData w)) =
     map (\<lambda>i. ''KMRL-'' @ padStart 3 CHR ''0'' (toString (int i + 1))) [0..<25]"
  by (simp add: fleet_closed_form trainset_at_value)

lemma mset_insert_cmp: "mset (insert_cmp cmp x xs) = add_mset x (mset xs)"
  by (induction xs) simp_all

lemma mset_Array_sort: "mset (Array_sort cmp xs) = mset xs"
  by (induction xs) (simp_all add: Array_sort_def mset_insert_cmp)

lemma set_insert_cmp: "set (insert_cmp cmp x xs) = insert x (set xs)"
  using mset_insert_cmp [of cmp x xs, THEN arg_cong, of set_mset] by simp

lemma insert_by_score_sorted:
  assumes "sorted_wrt (\<lambda>a b. score b \<le> score a) xs"
  shows "sorted_wrt (\<lambda>a b. score b \<le> score a) (insert_cmp (\<lambda>a b. score b - score a) x xs)"
  using assms
proof (induction xs)
  case Nil
  show ?case by simp
next
  case (Cons y ys)
  then show ?case
    by (auto simp: set_insert_cmp)
qed

lemma all_trainsets_sorted: "sorted_wrt (\<lambda>a b. score b \<le> score a) (all_trainsets rs)"
  by (induction rs)
    (simp_all add: all_trainsets_def Array_sort_def insert_by_score_sorted)

lemma all_trainsets_mset: "mset (all_trainsets rs) = mset rs"
  by (simp add: all_trainsets_def mset_Array_sort)

lemma result_ids_distinct: "distinct (map trainsetId (results (completed p w)))"
  unfolding result_ids by (rule numbers_distinct)

text \<open>
  Looking a trainset up by its number gives the same result in the array the run
  produces and in the sorted array.
\<close>

lemma sorted_lookup:
  "map_of (map (\<lambda>r. (trainsetId r, f r)) (all_trainsets (results (completed p w)))) =
     map_of (map (\<lambda>r. (trainsetId r, f r)) (results (completed p w)))"
proof -
  let ?rs = "results (completed p w)"
  let ?pair = "\<lambda>r. (trainsetId r, f r)"
  have "mset (map trainsetId (all_trainsets ?rs)) = mset (map trainsetId ?rs)"
    by (simp add: all_trainsets_mset)
  then have "distinct (map trainsetId (all_trainsets ?rs))"
    using result_ids_distinct [of p w] mset_eq_imp_distinct_iff by blast
  moreover have "set (map ?pair (all_trainsets ?rs)) = set (map ?pair ?rs)"
    using all_trainsets_mset [of ?rs, THEN arg_cong, of set_mset] by simp
  ultimately show ?thesis
    using result_ids_distinct [of p w] by (subst map_of_inject_set) (simp_all add: o_def)
qed

lemma result_lookup:
  assumes "i < 25"
  shows "map_of (map (\<lambda>r. (trainsetId r, f r)) (results (completed p w))) (train_number i) =
    Some (f (results (completed p w) ! i))"
proof -
  let ?rs = "results (completed p w)"
  have "trainsetId (?rs ! i) = train_number i"
    using assms by (simp add: results_nth result_at_value train_number_def)
  moreover have "?rs ! i \<in> set ?rs"
    using assms by (simp add: results_length)
  ultimately have "(train_number i, f (?rs ! i)) \<in> set (map (\<lambda>r. (trainsetId r, f r)) ?rs)"
    by force
  moreover have "distinct (map fst (map (\<lambda>r. (trainsetId r, f r)) ?rs))"
    using result_ids_distinct [of p w] by (simp add: o_def)
  ultimately show ?thesis
    by (rule map_of_is_SomeI [rotated])
qed

lemma fleet_number: "i < 25 \<Longrightarrow> number (fst (generateTrainsetData w) ! i) = train_number i"
  by (simp add: generateTrainsetData_nth trainset_at_value train_number_def)

lemma result_id_actions:
  "map (\<lambda>r. (trainsetId r, action r)) (results (completed p w)) =
     map (\<lambda>i. (train_number i,
                [Induct, Standby, Maintenance] !
                  nat \<lfloor>double_times (number_of (rands w (i * 4))) 3\<rfloor>)) [0..<25]"
  by (simp add: results_closed_form result_at_value rands_skip train_number_def)

lemma result_id_scores:
  "map (\<lambda>r. (trainsetId r, score r)) (results (completed p w)) =
     map (\<lambda>i. (train_number i,
                \<lfloor>double_times (number_of (rands w (i * 4 + 1))) 30\<rfloor> + 70)) [0..<25]"
  by (simp add: results_closed_form result_at_value rands_skip train_number_def)

lemma sorted_pairs:
  "mset (map g (all_trainsets rs)) = mset (map g rs)"
  by (simp add: all_trainsets_mset)

lemma result_scores:
  "map score (results (completed p w)) =
     map (\<lambda>i. \<lfloor>double_times (number_of (rands w (i * 4 + 1))) 30\<rfloor> + 70) [0..<25]"
  by (simp add: results_closed_form result_at_value rands_skip)

lemma fleet_mileage:
  "map mileage (fst (generateTrainsetData w)) =
     map (\<lambda>i. \<lparr>mileage.current = \<lfloor>double_times (number_of (rands w (i * 17 + 8))) 50000\<rfloor> + 10000,
                mileage.target = 45000,
                variance = \<lfloor>double_times (number_of (rands w (i * 17 + 9))) 10000\<rfloor> - 5000\<rparr>) [0..<25]"
  by (simp add: fleet_closed_form trainset_at_value rands_skip add.commute)

section \<open>Mileage\<close>

text \<open>
  C6, as the specification states it: the variance field is current mileage minus
  target mileage.  The generator draws the variance by itself.  When every draw is 0
  the first trainset has current mileage 10000, target 45000 and variance -5000, not
  -35000.
\<close>

theorem variance_is_not_current_minus_target:
  "mileage (fst (generateTrainsetData (constant_world draw_zero)) ! 0) =
     \<lparr>mileage.current = 10000, mileage.target = 45000, variance = - 5000\<rparr> \<and>
   variance (mileage (fst (generateTrainsetData (constant_world draw_zero)) ! 0)) \<noteq>
     mileage.current (mileage (fst (generateTrainsetData (constant_world draw_zero)) ! 0)) -
     mileage.target (mileage (fst (generateTrainsetData (constant_world draw_zero)) ! 0))"
  by (simp add: generateTrainsetData_nth trainset_at_value skip_def constant_world_def
      draw_zero.rep_eq
        double_values)

text \<open>
  C6, amended.  For every trainset snapshot the target mileage is 45000, the current
  mileage is an integer between 10000 and 59999, and the variance is an integer
  between -5000 and 4999 that comes from a draw of its own: the variance of trainset
  \<open>i\<close> is \<open>Math.floor(r * 10000) - 5000\<close> for draw \<open>17 i + 9\<close>, where the current
  mileage is \<open>Math.floor(r' * 50000) + 10000\<close> for draw \<open>17 i + 8\<close>.
\<close>

theorem mileage_fields:
  "map mileage (fst (generateTrainsetData w)) =
     map (\<lambda>i. \<lparr>mileage.current = \<lfloor>double_times (number_of (rands w (i * 17 + 8))) 50000\<rfloor> + 10000,
                mileage.target = 45000,
                variance = \<lfloor>double_times (number_of (rands w (i * 17 + 9))) 10000\<rfloor> - 5000\<rparr>) [0..<25] \<and>
   (\<forall>t \<in> set (fst (generateTrainsetData w)).
      mileage.target (mileage t) = 45000 \<and>
      10000 \<le> mileage.current (mileage t) \<and> mileage.current (mileage t) \<le> 59999 \<and>
      - 5000 \<le> variance (mileage t) \<and> variance (mileage t) \<le> 4999)"
proof (intro conjI ballI)
  show "map mileage (fst (generateTrainsetData w)) =
     map (\<lambda>i. \<lparr>mileage.current = \<lfloor>double_times (number_of (rands w (i * 17 + 8))) 50000\<rfloor> + 10000,
                mileage.target = 45000,
                variance = \<lfloor>double_times (number_of (rands w (i * 17 + 9))) 10000\<rfloor> - 5000\<rparr>) [0..<25]"
    by (rule fleet_mileage)
next
  fix t
  assume "t \<in> set (fst (generateTrainsetData w))"
  then obtain i where t: "t = fst (trainset_at i (skip (i * 17) i w))"
    by (rule fleet_member)
  define a where "a = \<lfloor>double_times (number_of (rands (skip (i * 17) i w) 8)) 50000\<rfloor>"
  define b where "b = \<lfloor>double_times (number_of (rands (skip (i * 17) i w) 9)) 10000\<rfloor>"
  have a: "0 \<le> a" "a < 50000"
    using floor_draw [of 50000 "rands (skip (i * 17) i w) 8"] by (simp_all add: a_def)
  have b: "0 \<le> b" "b < 10000"
    using floor_draw [of 10000 "rands (skip (i * 17) i w) 9"] by (simp_all add: b_def)
  have m: "mileage t =
      \<lparr>mileage.current = a + 10000, mileage.target = 45000, variance = b - 5000\<rparr>"
    by (simp add: t trainset_at_value a_def b_def)
  show "mileage.target (mileage t) = 45000"
    and "10000 \<le> mileage.current (mileage t)" and "mileage.current (mileage t) \<le> 59999"
    and "- 5000 \<le> variance (mileage t)" and "variance (mileage t) \<le> 4999"
    using a b by (simp_all add: m)
qed

theorem mileage_fields_witness:
  "fst (generateTrainsetData (constant_world draw_half)) ! 3
     \<in> set (fst (generateTrainsetData (constant_world draw_half))) \<and>
   mileage (fst (generateTrainsetData (constant_world draw_half)) ! 3) =
     \<lparr>mileage.current = 35000, mileage.target = 45000, variance = 0\<rparr> \<and>
   (10000::int) \<le> 35000 \<and> (35000::int) \<le> 59999 \<and> (- 5000::int) \<le> 0 \<and> (0::int) \<le> 4999"
proof -
  let ?fleet = "fst (generateTrainsetData (constant_world draw_half))"
  have m: "?fleet ! 3 \<in> set ?fleet"
    by (simp add: generateTrainsetData_length)
  have "10000 \<le> mileage.current (mileage (?fleet ! 3))"
    using mileage_fields [of "constant_world draw_half"] m by blast
  moreover have "mileage (?fleet ! 3) =
      \<lparr>mileage.current = 35000, mileage.target = 45000, variance = 0\<rparr>"
    by (simp add: generateTrainsetData_nth trainset_at_value skip_def constant_world_def
        draw_half.rep_eq
        double_values)
  ultimately show ?thesis
    using m by simp
qed

section \<open>Fleet metrics and composite scores\<close>

lemma metrics_value:
  "metrics (completed p w) =
     Some \<lparr>serviceReadiness = \<lfloor>double_times (number_of (rands w 100)) 20\<rfloor> + 80,
           costEfficiency = \<lfloor>double_times (number_of (rands w 101)) 15\<rfloor> + 85,
           brandingCompliance = \<lfloor>double_times (number_of (rands w 102)) 10\<rfloor> + 90,
           maintenanceOptimization = \<lfloor>double_times (number_of (rands w 103)) 25\<rfloor> + 75,
           stablingEfficiency = \<lfloor>double_times (number_of (rands w 104)) 20\<rfloor> + 80,
           overallScore = \<lfloor>double_times (number_of (rands w 105)) 15\<rfloor> + 85\<rparr>"
  by (simp add: completed_metrics mockMetrics_value rands_skip)

lemma zero_run_scores:
  "map score (results (completed p (constant_world draw_zero))) = replicate 25 70"
  by (simp add: result_scores constant_world_def draw_zero.rep_eq map_replicate_const
        double_values)

text \<open>
  C3, as the specification states it: the overall score of the metrics is the mean of
  the scores of the run's results.  In the run in which every draw is 0, the 25 results
  all score 70 and the overall score is 85.
\<close>

theorem overall_score_is_not_the_mean:
  "map_option overallScore (metrics (completed initial_panel (constant_world draw_zero))) =
     Some 85 \<and>
   sum_list (map score (results (completed initial_panel (constant_world draw_zero)))) = 1750 \<and>
   length (results (completed initial_panel (constant_world draw_zero))) = 25 \<and>
   map_option (\<lambda>m. real_of_int (overallScore m))
       (metrics (completed initial_panel (constant_world draw_zero))) \<noteq>
     Some (real_of_int
             (sum_list (map score (results (completed initial_panel (constant_world draw_zero))))) /
           real (length (results (completed initial_panel (constant_world draw_zero)))))"
proof -
  have "metrics (completed initial_panel (constant_world draw_zero)) =
      Some \<lparr>serviceReadiness = 80, costEfficiency = 85, brandingCompliance = 90,
            maintenanceOptimization = 75, stablingEfficiency = 80, overallScore = 85\<rparr>"
    by (simp add: metrics_value constant_world_def draw_zero.rep_eq
        double_values)
  moreover have
    "sum_list (map score (results (completed initial_panel (constant_world draw_zero)))) = 1750"
    by (simp add: zero_run_scores sum_list_replicate)
  ultimately show ?thesis
    by (simp add: results_length)
qed

text \<open>
  C3, amended.  Every completed run has metrics, and each of their six fields is the
  floor of a multiple of a draw of its own, taken after the 100 draws of the results: the
  overall score is \<open>Math.floor(r * 15) + 85\<close> for the 106th draw \<open>r\<close> of the run, an
  integer between 85 and 99, and the other fields lie in 80..99, 85..99, 90..99, 75..99
  and 80..99.  No field is computed from the results.
\<close>

theorem metrics_fields:
  "\<exists>m. metrics (completed p w) = Some m \<and>
     serviceReadiness m = \<lfloor>double_times (number_of (rands w 100)) 20\<rfloor> + 80 \<and>
     costEfficiency m = \<lfloor>double_times (number_of (rands w 101)) 15\<rfloor> + 85 \<and>
     brandingCompliance m = \<lfloor>double_times (number_of (rands w 102)) 10\<rfloor> + 90 \<and>
     maintenanceOptimization m = \<lfloor>double_times (number_of (rands w 103)) 25\<rfloor> + 75 \<and>
     stablingEfficiency m = \<lfloor>double_times (number_of (rands w 104)) 20\<rfloor> + 80 \<and>
     overallScore m = \<lfloor>double_times (number_of (rands w 105)) 15\<rfloor> + 85 \<and>
     80 \<le> serviceReadiness m \<and> serviceReadiness m \<le> 99 \<and>
     85 \<le> costEfficiency m \<and> costEfficiency m \<le> 99 \<and>
     90 \<le> brandingCompliance m \<and> brandingCompliance m \<le> 99 \<and>
     75 \<le> maintenanceOptimization m \<and> maintenanceOptimization m \<le> 99 \<and>
     80 \<le> stablingEfficiency m \<and> stablingEfficiency m \<le> 99 \<and>
     85 \<le> overallScore m \<and> overallScore m \<le> 99"
proof -
  define a where "a = \<lfloor>double_times (number_of (rands w 100)) 20\<rfloor>"
  define b where "b = \<lfloor>double_times (number_of (rands w 101)) 15\<rfloor>"
  define c where "c = \<lfloor>double_times (number_of (rands w 102)) 10\<rfloor>"
  define d where "d = \<lfloor>double_times (number_of (rands w 103)) 25\<rfloor>"
  define e where "e = \<lfloor>double_times (number_of (rands w 104)) 20\<rfloor>"
  define f where "f = \<lfloor>double_times (number_of (rands w 105)) 15\<rfloor>"
  have bounds: "0 \<le> a" "a < 20" "0 \<le> b" "b < 15" "0 \<le> c" "c < 10"
    "0 \<le> d" "d < 25" "0 \<le> e" "e < 20" "0 \<le> f" "f < 15"
    using floor_draw [of 20 "rands w 100"] floor_draw [of 15 "rands w 101"]
      floor_draw [of 10 "rands w 102"] floor_draw [of 25 "rands w 103"]
      floor_draw [of 20 "rands w 104"] floor_draw [of 15 "rands w 105"]
    by (simp_all add: a_def b_def c_def d_def e_def f_def)
  have "metrics (completed p w) =
      Some \<lparr>serviceReadiness = a + 80, costEfficiency = b + 85, brandingCompliance = c + 90,
            maintenanceOptimization = d + 75, stablingEfficiency = e + 80,
            overallScore = f + 85\<rparr>"
    by (simp add: metrics_value a_def b_def c_def d_def e_def f_def)
  then show ?thesis
    using bounds
    by (simp flip: a_def b_def c_def d_def e_def f_def)
qed

text \<open>
  C4, as the specification states it: the composite score of a trainset is the
  weighted sum (equal weights by default) of the five sub-scores.  The source has no
  sub-scores for a trainset; the only five sub-scores are those of the run's metrics.
  In the run in which every draw is 0 they are 80, 85, 90, 75 and 80, whose equally
  weighted sum is 82, while every trainset scores 70, below each of the five, so no
  weights that sum to 1 give it either.
\<close>

theorem score_is_not_the_weighted_sum:
  "score (results (completed initial_panel (constant_world draw_zero)) ! 0) = 70 \<and>
   map_option
       (\<lambda>m. [serviceReadiness m, costEfficiency m, brandingCompliance m,
             maintenanceOptimization m, stablingEfficiency m])
       (metrics (completed initial_panel (constant_world draw_zero))) =
     Some [80, 85, 90, 75, 80] \<and>
   map_option
       (\<lambda>m. serviceReadiness m + costEfficiency m + brandingCompliance m +
             maintenanceOptimization m + stablingEfficiency m)
       (metrics (completed initial_panel (constant_world draw_zero))) \<noteq>
     Some (5 * score (results (completed initial_panel (constant_world draw_zero)) ! 0))"
proof -
  have "metrics (completed initial_panel (constant_world draw_zero)) =
      Some \<lparr>serviceReadiness = 80, costEfficiency = 85, brandingCompliance = 90,
            maintenanceOptimization = 75, stablingEfficiency = 80, overallScore = 85\<rparr>"
    by (simp add: metrics_value constant_world_def draw_zero.rep_eq
        double_values)
  moreover have "score (results (completed initial_panel (constant_world draw_zero)) ! 0) = 70"
    by (simp add: results_nth result_at_value skip_def constant_world_def draw_zero.rep_eq
        double_values)
  ultimately show ?thesis
    by simp
qed

text \<open>
  C4, amended.  For every trainset in every run the composite score is
  \<open>Math.floor(r * 30) + 70\<close> for a draw \<open>r\<close> of its own (draw \<open>4 i + 1\<close> of the run
  for the trainset with number \<open>train_number i\<close>), before and after the results are
  sorted for presentation; it lies in [0,100].  The five sub-scores exist for the fleet
  only, as fields of the run's metrics; each of them lies in [0,100].
\<close>

theorem scores_and_sub_scores_in_range:
  "mset (map (\<lambda>r. (trainsetId r, score r)) (results (completed p w))) =
     mset (map (\<lambda>i. (train_number i,
                      \<lfloor>double_times (number_of (rands w (i * 4 + 1))) 30\<rfloor> + 70)) [0..<25]) \<and>
   mset (map (\<lambda>r. (trainsetId r, score r)) (all_trainsets (results (completed p w)))) =
     mset (map (\<lambda>i. (train_number i,
                      \<lfloor>double_times (number_of (rands w (i * 4 + 1))) 30\<rfloor> + 70)) [0..<25]) \<and>
   (\<forall>r \<in> set (results (completed p w)). 0 \<le> score r \<and> score r \<le> 100) \<and>
   (\<exists>m. metrics (completed p w) = Some m \<and>
      0 \<le> serviceReadiness m \<and> serviceReadiness m \<le> 100 \<and>
      0 \<le> costEfficiency m \<and> costEfficiency m \<le> 100 \<and>
      0 \<le> brandingCompliance m \<and> brandingCompliance m \<le> 100 \<and>
      0 \<le> maintenanceOptimization m \<and> maintenanceOptimization m \<le> 100 \<and>
      0 \<le> stablingEfficiency m \<and> stablingEfficiency m \<le> 100)"
proof (intro conjI ballI)
  show "mset (map (\<lambda>r. (trainsetId r, score r)) (results (completed p w))) =
     mset (map (\<lambda>i. (train_number i,
                      \<lfloor>double_times (number_of (rands w (i * 4 + 1))) 30\<rfloor> + 70)) [0..<25])"
    by (simp only: result_id_scores)
next
  show "mset (map (\<lambda>r. (trainsetId r, score r)) (all_trainsets (results (completed p w)))) =
     mset (map (\<lambda>i. (train_number i,
                      \<lfloor>double_times (number_of (rands w (i * 4 + 1))) 30\<rfloor> + 70)) [0..<25])"
    by (simp only: sorted_pairs result_id_scores)
next
  fix r
  assume "r \<in> set (results (completed p w))"
  then obtain i where r: "r = fst (result_at i (skip (i * 4) i w))"
    by (rule results_member)
  define a where "a = \<lfloor>double_times (number_of (rands (skip (i * 4) i w) 1)) 30\<rfloor>"
  have "0 \<le> a" "a < 30"
    using floor_draw [of 30 "rands (skip (i * 4) i w) 1"] by (simp_all add: a_def)
  moreover have "score r = a + 70"
    by (simp add: r result_at_value a_def)
  ultimately show "0 \<le> score r" "score r \<le> 100"
    by simp_all
next
  define a where "a = \<lfloor>double_times (number_of (rands w 100)) 20\<rfloor>"
  define b where "b = \<lfloor>double_times (number_of (rands w 101)) 15\<rfloor>"
  define c where "c = \<lfloor>double_times (number_of (rands w 102)) 10\<rfloor>"
  define d where "d = \<lfloor>double_times (number_of (rands w 103)) 25\<rfloor>"
  define e where "e = \<lfloor>double_times (number_of (rands w 104)) 20\<rfloor>"
  have bounds: "0 \<le> a" "a < 20" "0 \<le> b" "b < 15" "0 \<le> c" "c < 10"
    "0 \<le> d" "d < 25" "0 \<le> e" "e < 20"
    using floor_draw [of 20 "rands w 100"] floor_draw [of 15 "rands w 101"]
      floor_draw [of 10 "rands w 102"] floor_draw [of 25 "rands w 103"]
      floor_draw [of 20 "rands w 104"]
    by (simp_all add: a_def b_def c_def d_def e_def)
  have "metrics (completed p w) =
      Some \<lparr>serviceReadiness = a + 80, costEfficiency = b + 85, brandingCompliance = c + 90,
            maintenanceOptimization = d + 75, stablingEfficiency = e + 80,
            overallScore = \<lfloor>double_times (number_of (rands w 105)) 15\<rfloor> + 85\<rparr>"
    by (simp add: metrics_value a_def b_def c_def d_def e_def)
  then show "\<exists>m. metrics (completed p w) = Some m \<and>
      0 \<le> serviceReadiness m \<and> serviceReadiness m \<le> 100 \<and>
      0 \<le> costEfficiency m \<and> costEfficiency m \<le> 100 \<and>
      0 \<le> brandingCompliance m \<and> brandingCompliance m \<le> 100 \<and>
      0 \<le> maintenanceOptimization m \<and> maintenanceOptimization m \<le> 100 \<and>
      0 \<le> stablingEfficiency m \<and> stablingEfficiency m \<le> 100"
    using bounds by simp
qed

theorem scores_and_sub_scores_in_range_witness:
  "results (completed initial_panel (constant_world draw_half)) ! 7
     \<in> set (results (completed initial_panel (constant_world draw_half))) \<and>
   score (results (completed initial_panel (constant_world draw_half)) ! 7) = 85 \<and>
   (0::int) \<le> 85 \<and> (85::int) \<le> 100"
proof -
  let ?rs = "results (completed initial_panel (constant_world draw_half))"
  have m: "?rs ! 7 \<in> set ?rs"
    by (simp add: results_length)
  have "0 \<le> score (?rs ! 7) \<and> score (?rs ! 7) \<le> 100"
    using scores_and_sub_scores_in_range [of initial_panel "constant_world draw_half"] m
    by blast
  moreover have "score (?rs ! 7) = 85"
    by (simp add: results_nth result_at_value skip_def constant_world_def draw_half.rep_eq
        double_values)
  ultimately show ?thesis
    using m by simp
qed

section \<open>Certificates and actions\<close>

lemma action_is_maintenance:
  "[Induct, Standby, Maintenance] ! nat \<lfloor>double_times (number_of r) 3\<rfloor> = Maintenance
     \<longleftrightarrow> \<lfloor>double_times (number_of r) 3\<rfloor> = 2"
proof -
  define a where "a = \<lfloor>double_times (number_of r) 3\<rfloor>"
  have "0 \<le> a" "a < 3"
    using floor_draw [of 3 r] by (simp_all add: a_def)
  then consider "a = 0" | "a = 1" | "a = 2"
    by linarith
  then have "[Induct, Standby, Maintenance] ! nat a = Maintenance \<longleftrightarrow> a = 2"
    by cases simp_all
  then show ?thesis
    by (simp only: a_def)
qed

text \<open>
  C1, as the specification states it: a trainset with an expired certificate is never
  assigned Induct, its action is Maintenance.  In the fleet generated when every draw
  is 0 the first trainset has all three certificates expired and its recommended
  action is Induct; the first result of the run in which every draw is 0 carries the
  same trainset number and the action Induct.
\<close>

theorem expired_certificate_inducted:
  "fitness (fst (generateTrainsetData (constant_world draw_zero)) ! 0) =
     \<lparr>rollingStock = False, signalling = False, telecom = False\<rparr> \<and>
   recommendedAction (fst (generateTrainsetData (constant_world draw_zero)) ! 0) = Induct \<and>
   number (fst (generateTrainsetData (constant_world draw_zero)) ! 0) = ''KMRL-001'' \<and>
   trainsetId (results (completed initial_panel (constant_world draw_zero)) ! 0) = ''KMRL-001'' \<and>
   action (results (completed initial_panel (constant_world draw_zero)) ! 0) = Induct"
  by (simp add: generateTrainsetData_nth trainset_at_value results_nth result_at_value
      skip_def constant_world_def draw_zero.rep_eq padStart_def toString_def digits.simps
      numeral_2_eq_2 double_values literals)

text \<open>
  C1, amended.  The action of a trainset does not depend on its certificates.  For
  trainset \<open>i\<close> of the fleet the certificates are decided by draws \<open>17 i + 1\<close>,
  \<open>17 i + 2\<close> and \<open>17 i + 3\<close> of the generator, compared with the literals 0.1, 0.05
  and 0.08, and the recommended action is the entry of \<open>[induct, standby, maintenance]\<close>
  at index \<open>Math.floor(r * 3)\<close> for draw \<open>r\<close> number \<open>17 i + 15\<close> alone: it is
  Maintenance exactly when that index is 2.  In the results of a run, the action recorded
  for the trainset's number is the entry at index \<open>Math.floor(r * 3)\<close> for draw \<open>4 i\<close>
  of the run, before and after the results are sorted for presentation.
\<close>

theorem action_independent_of_certificates:
  assumes "i < 25"
  shows
    "fitness (fst (generateTrainsetData w) ! i) =
       \<lparr>rollingStock = (number_of (rands w (i * 17 + 1)) > round_double 0.1),
        signalling = (number_of (rands w (i * 17 + 2)) > round_double 0.05),
        telecom = (number_of (rands w (i * 17 + 3)) > round_double 0.08)\<rparr> \<and>
     recommendedAction (fst (generateTrainsetData w) ! i) =
       [Induct, Standby, Maintenance] !
         nat \<lfloor>double_times (number_of (rands w (i * 17 + 15))) 3\<rfloor> \<and>
     (recommendedAction (fst (generateTrainsetData w) ! i) = Maintenance
        \<longleftrightarrow> \<lfloor>double_times (number_of (rands w (i * 17 + 15))) 3\<rfloor> = 2) \<and>
     map_of (map (\<lambda>r. (trainsetId r, action r)) (results (completed p w')))
         (number (fst (generateTrainsetData w) ! i)) =
       Some ([Induct, Standby, Maintenance] !
         nat \<lfloor>double_times (number_of (rands w' (i * 4))) 3\<rfloor>) \<and>
     map_of (map (\<lambda>r. (trainsetId r, action r)) (all_trainsets (results (completed p w'))))
         (number (fst (generateTrainsetData w) ! i)) =
       Some ([Induct, Standby, Maintenance] !
         nat \<lfloor>double_times (number_of (rands w' (i * 4))) 3\<rfloor>)"
proof -
  have fit: "fitness (fst (generateTrainsetData w) ! i) =
       \<lparr>rollingStock = (number_of (rands w (i * 17 + 1)) > round_double 0.1),
        signalling = (number_of (rands w (i * 17 + 2)) > round_double 0.05),
        telecom = (number_of (rands w (i * 17 + 3)) > round_double 0.08)\<rparr>"
    using assms
    by (simp add: generateTrainsetData_nth trainset_at_value rands_skip add.commute)
  have rec: "recommendedAction (fst (generateTrainsetData w) ! i) =
      [Induct, Standby, Maintenance] ! nat \<lfloor>double_times (number_of (rands w (i * 17 + 15))) 3\<rfloor>"
    using assms
    by (simp add: generateTrainsetData_nth trainset_at_value rands_skip add.commute)
  have act: "action (results (completed p w') ! i) =
      [Induct, Standby, Maintenance] ! nat \<lfloor>double_times (number_of (rands w' (i * 4))) 3\<rfloor>"
    using assms
    by (simp add: results_nth result_at_value rands_skip)
  have look: "map_of (map (\<lambda>r. (trainsetId r, action r)) (results (completed p w')))
         (number (fst (generateTrainsetData w) ! i)) =
       Some ([Induct, Standby, Maintenance] !
         nat \<lfloor>double_times (number_of (rands w' (i * 4))) 3\<rfloor>)"
    using assms result_lookup [of i action p w'] by (simp add: fleet_number act)
  show ?thesis
    using action_is_maintenance [of "rands w (i * 17 + 15)"]
    by (simp only: fit rec look sorted_lookup)
qed

theorem action_independent_of_certificates_witness:
  "(2::nat) < 25 \<and>
   \<lfloor>double_times (number_of (rands (constant_world draw_high) (2 * 17 + 15))) 3\<rfloor> = 2 \<and>
   recommendedAction (fst (generateTrainsetData (constant_world draw_high)) ! 2) = Maintenance \<and>
   \<lfloor>double_times (number_of (rands (constant_world draw_half) (2 * 4))) 3\<rfloor> = 1 \<and>
   map_of (map (\<lambda>r. (trainsetId r, action r))
        (all_trainsets (results (completed initial_panel (constant_world draw_half)))))
      (number (fst (generateTrainsetData (constant_world draw_high)) ! 2)) = Some Standby"
proof -
  have r: "\<lfloor>double_times (number_of (rands (constant_world draw_high) (2 * 17 + 15))) 3\<rfloor> = 2"
    "\<lfloor>double_times (number_of (rands (constant_world draw_half) (2 * 4))) 3\<rfloor> = 1"
    by (simp_all add: constant_world_def draw_high.rep_eq draw_half.rep_eq double_values)
  show ?thesis
    using action_independent_of_certificates
      [of 2 "constant_world draw_high" initial_panel "constant_world draw_half"] r
    by simp
qed

section \<open>Every trainset once\<close>

lemma generateTrainsetData_world: "snd (generateTrainsetData w) = skip 425 25 w"
  using Array_from_world [of trainset_at 17 1 25 w]
  by (simp add: generateTrainsetData_def trainset_at_world)

text \<open>
  C5, as the specification states it: every trainset appears exactly once in the
  result set, with an action from its feasible set.  In the session in which the fleet
  is generated from draws 1/2 and the run from draws 0, trainset KMRL-001 has valid
  certificates and two open job cards, so the specification's feasible set for it is
  Standby and Maintenance, and its result carries the action Induct.
\<close>

theorem action_outside_feasible_set:
  "number (session_fleet ! 0) = ''KMRL-001'' \<and>
   trainsetId (results session_run ! 0) = ''KMRL-001'' \<and>
   open_cards (jobCards (session_fleet ! 0)) = 2 \<and>
   spec_feasible_actions (session_fleet ! 0) = {Standby, Maintenance} \<and>
   action (results session_run ! 0) = Induct \<and>
   action (results session_run ! 0) \<notin> spec_feasible_actions (session_fleet ! 0)"
proof -
  have "session_fleet ! 0 = fst (trainset_at 0 session_world)"
    by (simp add: session_fleet_def generateTrainsetData_nth skip_zero)
  then have fleet: "number (session_fleet ! 0) = ''KMRL-001''"
    "fitness (session_fleet ! 0) =
       \<lparr>rollingStock = True, signalling = True, telecom = True\<rparr>"
    "jobCards (session_fleet ! 0) = \<lparr>open_cards = 2, total_cards = 10\<rparr>"
    by (simp_all add: trainset_at_value session_world_def draw_half.rep_eq padStart_def
        toString_def digits.simps numeral_2_eq_2 double_values literals)
  have "results session_run ! 0 = fst (result_at 0 (skip 425 25 session_world))"
    by (simp add: session_run_def results_nth generateTrainsetData_world skip_zero)
  then have run: "trainsetId (results session_run ! 0) = ''KMRL-001''"
    "action (results session_run ! 0) = Induct"
    by (simp_all add: result_at_value rands_skip session_world_def draw_zero.rep_eq
        padStart_def toString_def digits.simps numeral_2_eq_2
        double_values)
  show ?thesis
    by (simp add: fleet run spec_feasible_actions_def)
qed

text \<open>
  C5, amended.  For every fleet the generator produces and every run, the results carry
  exactly the numbers of the fleet's trainsets, each once: no trainset is omitted and
  none has two results.  The action recorded for the trainset with number
  \<open>train_number i\<close> is the entry of \<open>[induct, standby, maintenance]\<close> at index
  \<open>Math.floor(r * 3)\<close> for draw \<open>4 i\<close> of the run; no feasible set restricts it.  The
  presentation sorts the array of results and keeps its entries.
\<close>

theorem every_trainset_once:
  "mset (map trainsetId (results (completed p w))) =
     mset (map number (fst (generateTrainsetData w'))) \<and>
   distinct (map trainsetId (results (completed p w))) \<and>
   length (results (completed p w)) = length (fst (generateTrainsetData w')) \<and>
   mset (map (\<lambda>r. (trainsetId r, action r)) (results (completed p w))) =
     mset (map (\<lambda>i. (train_number i,
                      [Induct, Standby, Maintenance] !
                        nat \<lfloor>double_times (number_of (rands w (i * 4))) 3\<rfloor>)) [0..<25]) \<and>
   mset (all_trainsets (results (completed p w))) = mset (results (completed p w))"
proof (intro conjI)
  have "map trainsetId (results (completed p w)) = map number (fst (generateTrainsetData w'))"
    unfolding result_ids fleet_numbers by (rule refl)
  then show "mset (map trainsetId (results (completed p w))) =
      mset (map number (fst (generateTrainsetData w')))"
    by (simp only:)
  show "distinct (map trainsetId (results (completed p w)))"
    by (rule result_ids_distinct)
  show "length (results (completed p w)) = length (fst (generateTrainsetData w'))"
    by (simp add: results_length generateTrainsetData_length)
  show "mset (map (\<lambda>r. (trainsetId r, action r)) (results (completed p w))) =
     mset (map (\<lambda>i. (train_number i,
                      [Induct, Standby, Maintenance] !
                        nat \<lfloor>double_times (number_of (rands w (i * 4))) 3\<rfloor>)) [0..<25])"
    by (simp only: result_id_actions)
  show "mset (all_trainsets (results (completed p w))) = mset (results (completed p w))"
    by (rule all_trainsets_mset)
qed

section \<open>Repeated runs\<close>

text \<open>
  C2, as the specification states it: two runs on the same snapshot with the same
  configuration give the same results and metrics.  A run receives neither a snapshot
  nor a configuration, so any two runs qualify.  Of two consecutive runs from the
  initial state, the first drawing 0 throughout and the second 1/2, the first assigns
  Induct with score 70 to the first trainset and has overall score 85, the second
  assigns Standby with score 85 and has overall score 92.
\<close>

theorem two_runs_differ:
  "action (results first_run ! 0) = Induct \<and>
   action (results second_run ! 0) = Standby \<and>
   score (results first_run ! 0) = 70 \<and>
   score (results second_run ! 0) = 85 \<and>
   length (reasoning (results first_run ! 0)) = 1 \<and>
   length (reasoning (results second_run ! 0)) = 3 \<and>
   constraints (results first_run ! 0) = [] \<and>
   constraints (results second_run ! 0) = [''Telecom clearance expires in 6 hours''] \<and>
   map_option overallScore (metrics first_run) = Some 85 \<and>
   map_option overallScore (metrics second_run) = Some 92"
proof -
  have "results first_run ! 0 = fst (result_at 0 two_runs_world)"
    by (simp add: first_run_def results_nth skip_zero)
  then have first:
    "action (results first_run ! 0) = Induct" "score (results first_run ! 0) = 70"
    "length (reasoning (results first_run ! 0)) = 1"
    "constraints (results first_run ! 0) = []"
    by (simp_all add: result_at_value two_runs_world_def draw_zero.rep_eq slice0_def
        double_values)
  have "results second_run ! 0 = fst (result_at 0 (skip 106 25 two_runs_world))"
    by (simp add: second_run_def results_nth runOptimization_world skip_zero)
  then have second:
    "action (results second_run ! 0) = Standby" "score (results second_run ! 0) = 85"
    "length (reasoning (results second_run ! 0)) = 3"
    "constraints (results second_run ! 0) = [''Telecom clearance expires in 6 hours'']"
    by (simp_all add: result_at_value rands_skip two_runs_world_def draw_half.rep_eq
        slice0_def
        double_values)
  have "map_option overallScore (metrics first_run) = Some 85"
    by (simp add: first_run_def metrics_value two_runs_world_def draw_zero.rep_eq
        double_values)
  moreover have "map_option overallScore (metrics second_run) = Some 92"
    by (simp add: second_run_def metrics_value runOptimization_world rands_skip
        two_runs_world_def draw_half.rep_eq
        double_values)
  ultimately show ?thesis
    using first second by simp
qed

text \<open>
  C2, amended.  The results (numbers, actions, scores, reasoning, constraints) and the
  metrics of a run are determined by the first 106 values that \<open>Math.random()\<close>
  returns during the run: two runs that receive the same 106 draws yield the same
  results and metrics, whatever state they start in and whatever is drawn or read
  from the clock otherwise.
\<close>

theorem same_draws_same_results:
  assumes "map (rands w) [0..<106] = map (rands w') [0..<106]"
  shows "map (\<lambda>r. (trainsetId r, action r, score r, reasoning r, constraints r))
           (results (completed p w)) =
         map (\<lambda>r. (trainsetId r, action r, score r, reasoning r, constraints r))
           (results (completed p' w')) \<and>
         metrics (completed p w) = metrics (completed p' w')"
proof -
  have same: "rands w k = rands w' k" if "k < 106" for k
    using assms that by simp
  have "(\<lambda>r. (trainsetId r, action r, score r, reasoning r, constraints r))
          (fst (result_at i (skip (i * 4) i w))) =
        (\<lambda>r. (trainsetId r, action r, score r, reasoning r, constraints r))
          (fst (result_at i (skip (i * 4) i w')))" if "i < 25" for i
    using that by (simp add: result_at_value rands_skip same)
  then have "map (\<lambda>r. (trainsetId r, action r, score r, reasoning r, constraints r))
           (results (completed p w)) =
         map (\<lambda>r. (trainsetId r, action r, score r, reasoning r, constraints r))
           (results (completed p' w'))"
    by (simp add: results_closed_form)
  moreover have "metrics (completed p w) = metrics (completed p' w')"
    by (simp add: metrics_value same)
  ultimately show ?thesis
    by simp
qed

theorem same_draws_same_results_witness:
  "map (rands (constant_world draw_zero)) [0..<106] = map (rands two_runs_world) [0..<106] \<and>
   dates (constant_world draw_zero) 1 \<noteq> dates two_runs_world 1 \<and>
   map (\<lambda>r. (trainsetId r, action r, score r, reasoning r, constraints r))
     (results (completed initial_panel (constant_world draw_zero))) =
   map (\<lambda>r. (trainsetId r, action r, score r, reasoning r, constraints r))
     (results (completed first_run two_runs_world)) \<and>
   metrics (completed initial_panel (constant_world draw_zero)) =
     metrics (completed first_run two_runs_world)"
proof -
  have h: "map (rands (constant_world draw_zero)) [0..<106] = map (rands two_runs_world) [0..<106]"
    by (simp add: constant_world_def two_runs_world_def)
  have "dates (constant_world draw_zero) 1 \<noteq> dates two_runs_world 1"
    by (simp add: constant_world_def two_runs_world_def)
  then show ?thesis
    using h same_draws_same_results [OF h, of initial_panel first_run] by simp
qed

section \<open>The progress signal\<close>

lemma log_loop_progress:
  "map progress (log_loop ls i p) =
     map (\<lambda>k. (real k + 1) / real (length ls) * 100) [i..<length ls]"
proof (induction ls i p rule: log_loop.induct)
  case (1 ls i p)
  show ?case
  proof (cases "i < length ls")
    case True
    then show ?thesis
      using "1.IH" [OF True refl]
      by (subst log_loop.simps) (simp add: Let_def upt_conv_Cons)
  next
    case False
    then show ?thesis
      by (subst log_loop.simps) simp
  qed
qed

lemma length_logs: "length logs = 11"
  by (simp add: logs_def)

lemma progress_signal_value:
  "progress_signal p w = 0 # map (\<lambda>k. (real k + 1) / 11 * 100) [0..<11] @ [100]"
proof -
  define p0 where "p0 = p\<lparr>isOptimizing := True, progress := 0, optimizationLogs := []\<rparr>"
  define rounds where "rounds = log_loop logs 0 p0"
  have rounds: "map progress rounds = map (\<lambda>k. (real k + 1) / 11 * 100) [0..<11]"
    using log_loop_progress [of logs 0 p0] by (simp add: rounds_def length_logs)
  then have "length rounds = 11"
    using length_map [of progress rounds] by simp
  then have "rounds \<noteq> []"
    by auto
  then have "progress (last (p0 # rounds)) = last (map progress rounds)"
    by (simp add: last_map)
  also have "\<dots> = 100"
    unfolding rounds by (simp add: last_map)
  finally have last: "progress (last (p0 # rounds)) = 100" .
  have signal: "progress_signal p w =
      progress p0 # map progress rounds @ [progress (last (p0 # rounds))]"
    by (simp add: progress_signal_def runOptimization_def split_def Let_def
        flip: p0_def rounds_def)
  show ?thesis
    unfolding signal last rounds by (simp add: p0_def)
qed

text \<open>
  C7.  During every run the progress values emitted, in order, never decrease, all lie
  between 0 and 100, start at 0 and end at 100.  The values are 0, then
  \<open>(i + 1) / 11 * 100\<close> for the eleven rounds of the loop, and the last of these, 100,
  stays when the results are published.  (In doubles the division and the
  multiplication round monotonically and \<open>11 / 11 * 100\<close> is exactly 100.)
\<close>

theorem progress_monotone:
  "sorted (progress_signal p w) \<and>
   (\<forall>x \<in> set (progress_signal p w). 0 \<le> x \<and> x \<le> 100) \<and>
   hd (progress_signal p w) = 0 \<and>
   last (progress_signal p w) = 100"
proof (intro conjI ballI)
  have "sorted (map (\<lambda>k. (real k + 1) / 11 * 100) [0..<11])"
    by (simp add: sorted_map sorted_wrt_iff_nth_less divide_right_mono)
  then show "sorted (progress_signal p w)"
    by (auto simp: progress_signal_value sorted_append)
next
  fix x
  assume "x \<in> set (progress_signal p w)"
  then show "0 \<le> x" "x \<le> 100"
    by (auto simp: progress_signal_value)
next
  show "hd (progress_signal p w) = 0" "last (progress_signal p w) = 100"
    by (simp_all add: progress_signal_value)
qed

theorem progress_monotone_witness:
  "progress_signal initial_panel (constant_world draw_zero) ! 11
     \<in> set (progress_signal initial_panel (constant_world draw_zero)) \<and>
   progress_signal initial_panel (constant_world draw_zero) ! 1 = 100 / 11 \<and>
   progress_signal initial_panel (constant_world draw_zero) ! 11 = 100 \<and>
   (0::real) \<le> 100 \<and> (100::real) \<le> 100"
proof -
  let ?s = "progress_signal initial_panel (constant_world draw_zero)"
  have len: "length ?s = 13"
    by (simp add: progress_signal_value)
  then have m: "?s ! 11 \<in> set ?s"
    by simp
  have "0 \<le> ?s ! 11 \<and> ?s ! 11 \<le> 100"
    using progress_monotone [of initial_panel "constant_world draw_zero"] m by blast
  moreover have "?s ! 1 = 100 / 11" "?s ! 11 = 100"
    by (simp_all add: progress_signal_value nth_append)
  ultimately show ?thesis
    using m by simp
qed

section \<open>The sorted presentation\<close>

text \<open>
  C8.  The list shown for the whole fleet is in descending order of score, it holds
  exactly the results of the run (each as often as the run produced it), and the action
  recorded for each trainset number is the same in the sorted list as in the results of
  the run: sorting changes the rank only.
\<close>

theorem sorted_by_score_actions_unchanged:
  "sorted_wrt (\<lambda>a b. score b \<le> score a) (all_trainsets rs) \<and>
   mset (all_trainsets rs) = mset rs \<and>
   map_of (map (\<lambda>r. (trainsetId r, action r)) (all_trainsets (results (completed p w)))) =
     map_of (map (\<lambda>r. (trainsetId r, action r)) (results (completed p w)))"
  by (simp add: all_trainsets_sorted all_trainsets_mset sorted_lookup)

end
